theory Spec2Isabelle
  imports Main
begin

section \<open>The store\<close>

text \<open>
  The handlers of \<^verbatim>\<open>base/views.py\<close> and \<^verbatim>\<open>base/api/views.py\<close> read and write the
  tables through the ORM. A table is the list of its rows in storage order; a row is a
  record; a column that the handlers fill from \<^verbatim>\<open>request.POST.get(...)\<close> holds a
  \<open>string option\<close>, because that call yields \<^verbatim>\<open>None\<close> when the key is absent.

  Modelled from the spec: \<^verbatim>\<open>base/models.py\<close> is not among the sources. The columns are
  the ones the handlers name (\<^verbatim>\<open>host\<close>, \<^verbatim>\<open>topic\<close>, \<^verbatim>\<open>name\<close>, \<^verbatim>\<open>description\<close>,
  \<^verbatim>\<open>participants\<close>, \<^verbatim>\<open>user\<close>, \<^verbatim>\<open>room\<close>, \<^verbatim>\<open>body\<close>, \<^verbatim>\<open>username\<close>, \<^verbatim>\<open>email\<close>) and the
  data model of the spec (section 3). Timestamps are maintained by the store and are not
  part of the rows. Text is the byte string of its UTF-8 encoding.
\<close>

datatype error =
    DoesNotExist
  | MultipleObjectsReturned
  | IntegrityError
  | ValueError
  | AttributeError

record User =
  user_id :: nat
  user_username :: string
  user_email :: string

record Topic =
  topic_id :: nat
  topic_name :: "string option"

record Room =
  room_id :: nat
  room_host :: nat
  room_topic :: nat
  room_name :: "string option"
  room_description :: "string option"

record Message =
  message_id :: nat
  message_user :: nat
  message_room :: nat
  message_body :: "string option"

text \<open>
  \<open>room_participants\<close> is the table behind the many-to-many relation
  \<^verbatim>\<open>Room.participants\<close>: one row (room id, user id) per membership.
\<close>

record db =
  users :: "User list"
  topics :: "Topic list"
  rooms :: "Room list"
  room_participants :: "(nat \<times> nat) list"
  messages :: "Message list"

text \<open>
  What the store accepts on insert and update (NOT NULL, length and uniqueness
  constraints) is declared in \<^verbatim>\<open>base/models.py\<close>; it is a parameter of the handlers that
  write. A refused row raises \<^verbatim>\<open>IntegrityError\<close>.
\<close>

record schema =
  topic_valid :: "Topic \<Rightarrow> bool"
  room_valid :: "Room \<Rightarrow> bool"
  message_valid :: "Message \<Rightarrow> bool"
  user_valid :: "User list \<Rightarrow> User \<Rightarrow> bool"

subsection \<open>Requests and responses\<close>

datatype identity = AnonymousUser | AuthUser nat

fun is_authenticated :: "identity \<Rightarrow> bool" where
  "is_authenticated AnonymousUser = False"
| "is_authenticated (AuthUser u) = True"

record request =
  req_user :: identity
  req_method :: string
  GET :: "string \<rightharpoonup> string"
  POST :: "string \<rightharpoonup> string"

record RoomPayload =
  payload_id :: nat
  payload_host :: nat
  payload_topic :: nat
  payload_name :: "string option"
  payload_description :: "string option"
  payload_participants :: "nat list"

datatype page_context =
    HomeContext "Room list" "Topic list" nat "Message list"
  | LoginContext string
  | RegisterContext bool
  | RoomContext Room "Message list" "nat list"
  | RoomFormContext "Topic list" "Room option"
  | DeleteRoomContext Room
  | DeleteMessageContext Message
  | TopicsContext "Topic list"

datatype response =
    Render string page_context
  | Redirect string "nat option"
  | HttpResponse string
  | Response RoomPayload
  | OptionsResponse
  | MethodNotAllowed

text \<open>
  What the caller of a handler gets is a response or, when the handler raises, the
  exception (\<open>Inl\<close>). The framework answers an exception that nothing catches with the
  server error, status 500, whatever the exception; a not-found answer would be 404.
\<close>

fun http_status :: "error + response \<Rightarrow> nat" where
  "http_status (Inl e) = 500"
| "http_status (Inr (Render template c)) = 200"
| "http_status (Inr (Redirect target arg)) = 302"
| "http_status (Inr (HttpResponse body)) = 200"
| "http_status (Inr (Response payload)) = 200"
| "http_status (Inr OptionsResponse) = 200"
| "http_status (Inr MethodNotAllowed) = 405"

subsection \<open>Query operations of the ORM\<close>

text \<open>
  \<^verbatim>\<open>Model.objects.get(...)\<close>: the one row that satisfies the condition; it raises
  \<^verbatim>\<open>DoesNotExist\<close> when there is none and \<^verbatim>\<open>MultipleObjectsReturned\<close> when there are
  several.
\<close>

definition get :: "('a \<Rightarrow> bool) \<Rightarrow> 'a list \<Rightarrow> error + 'a" where
  "get P xs =
     (case filter P xs of
        [] \<Rightarrow> Inl DoesNotExist
      | [x] \<Rightarrow> Inr x
      | x # y # ys \<Rightarrow> Inl MultipleObjectsReturned)"

text \<open>The key of a new row: larger than every key in the table.\<close>

definition fresh :: "nat list \<Rightarrow> nat" where
  "fresh ids = Suc (fold max ids 0)"

text \<open>
  The case folding of the store's pattern match: the letters A to Z are folded to a to
  z, every other byte is left as it is.
\<close>

definition lower_char :: "char \<Rightarrow> char" where
  "lower_char c =
     (let n = (of_char c :: nat)
      in if 65 \<le> n \<and> n \<le> 90 then char_of (n + 32) else c)"

definition lower :: "string \<Rightarrow> string" where
  "lower s = map lower_char s"


text \<open>
  The lookup \<^verbatim>\<open>field__icontains=q\<close>: the store searches the column for the pattern,
  ignoring case; a NULL column matches nothing. \<open>starts_with\<close> and \<open>contains\<close> are the
  search, written as the scan it is.
\<close>

fun starts_with :: "'a list \<Rightarrow> 'a list \<Rightarrow> bool" where
  "starts_with [] ys = True"
| "starts_with (x # xs) [] = False"
| "starts_with (x # xs) (y # ys) = (x = y \<and> starts_with xs ys)"

fun contains :: "'a list \<Rightarrow> 'a list \<Rightarrow> bool" where
  "contains xs [] = (xs = [])"
| "contains xs (y # ys) = (starts_with xs (y # ys) \<or> contains xs ys)"

fun icontains :: "string \<Rightarrow> string option \<Rightarrow> bool" where
  "icontains q None = False"
| "icontains q (Some s) = contains (lower q) (lower s)"

text \<open>
  The spec's words, "q is a case-insensitive substring of s": after case folding, s is
  some text, then q, then some text.
\<close>

definition ci_substring :: "string \<Rightarrow> string \<Rightarrow> bool" where
  "ci_substring q s = (\<exists>pre suf. lower s = pre @ lower q @ suf)"

text \<open>
  The joins \<^verbatim>\<open>topic__name\<close> (from a room) and \<^verbatim>\<open>room__topic__name\<close> (from a message):
  the condition holds of a row when a joined row satisfies it. Keys are primary keys, so
  at most one row joins.
\<close>

definition topic__name__icontains :: "db \<Rightarrow> string \<Rightarrow> Room \<Rightarrow> bool" where
  "topic__name__icontains d q r =
     list_ex (\<lambda>t. topic_id t = room_topic r \<and> icontains q (topic_name t)) (topics d)"

definition room__topic__name__icontains :: "db \<Rightarrow> string \<Rightarrow> Message \<Rightarrow> bool" where
  "room__topic__name__icontains d q m =
     list_ex (\<lambda>r. room_id r = message_room m \<and> topic__name__icontains d q r) (rooms d)"

text \<open>\<^verbatim>\<open>request.GET.get(key, default)\<close>.\<close>

definition GET_get :: "request \<Rightarrow> string \<Rightarrow> string \<Rightarrow> string" where
  "GET_get request key dflt = (case GET request key of None \<Rightarrow> dflt | Some s \<Rightarrow> s)"

section \<open>Handlers of base/views.py\<close>

subsection \<open>home\<close>

definition home :: "db \<Rightarrow> request \<Rightarrow> response" where
  "home d request =
     (let q = GET_get request ''q'' '''';
          rooms' = filter (\<lambda>r. topic__name__icontains d q r
                               \<or> icontains q (room_name r)
                               \<or> icontains q (room_description r)) (rooms d);
          room_count = length rooms';
          topics' = take 5 (topics d);
          room_messages = filter (room__topic__name__icontains d q) (messages d)
      in Render ''base/home.html'' (HomeContext rooms' topics' room_count room_messages))"

text \<open>The four entries of the context that \<open>home\<close> renders.\<close>

fun context_rooms :: "response \<Rightarrow> Room list" where
  "context_rooms (Render t (HomeContext rs ts n ms)) = rs"
| "context_rooms _ = []"

fun context_room_count :: "response \<Rightarrow> nat" where
  "context_room_count (Render t (HomeContext rs ts n ms)) = n"
| "context_room_count _ = 0"

fun context_room_messages :: "response \<Rightarrow> Message list" where
  "context_room_messages (Render t (HomeContext rs ts n ms)) = ms"
| "context_room_messages _ = []"

fun context_topics :: "response \<Rightarrow> Topic list" where
  "context_topics (Render t (HomeContext rs ts n ms)) = ts"
| "context_topics (Render t (TopicsContext ts)) = ts"
| "context_topics _ = []"

subsection \<open>Write operations of the ORM\<close>

text \<open>
  \<^verbatim>\<open>Topic.objects.get_or_create(name=...)\<close>: the row with that name when there is one
  (several raise), otherwise a new row, which the store may refuse. The result is the
  topic, the flag \<^verbatim>\<open>created\<close> and the store after the call.
\<close>

definition Topic_get_or_create ::
    "schema \<Rightarrow> db \<Rightarrow> string option \<Rightarrow> error + (Topic \<times> bool \<times> db)" where
  "Topic_get_or_create sch d name =
     (case get (\<lambda>t. topic_name t = name) (topics d) of
        Inr t \<Rightarrow> Inr (t, False, d)
      | Inl e \<Rightarrow>
          if e = DoesNotExist then
            (let t = \<lparr>topic_id = fresh (map topic_id (topics d)), topic_name = name\<rparr>
             in if topic_valid sch t
                then Inr (t, True, d\<lparr>topics := topics d @ [t]\<rparr>)
                else Inl IntegrityError)
          else Inl e)"

definition Room_create ::
    "schema \<Rightarrow> db \<Rightarrow> nat \<Rightarrow> nat \<Rightarrow> string option \<Rightarrow> string option \<Rightarrow> error + db" where
  "Room_create sch d host topic name description =
     (let r = \<lparr>room_id = fresh (map room_id (rooms d)), room_host = host,
               room_topic = topic, room_name = name, room_description = description\<rparr>
      in if room_valid sch r then Inr (d\<lparr>rooms := rooms d @ [r]\<rparr>) else Inl IntegrityError)"

text \<open>\<^verbatim>\<open>room.save()\<close> of a loaded row: the row with its key is overwritten.\<close>

definition Room_save :: "schema \<Rightarrow> db \<Rightarrow> Room \<Rightarrow> error + db" where
  "Room_save sch d r =
     (if room_valid sch r
      then Inr (d\<lparr>rooms := map (\<lambda>x. if room_id x = room_id r then r else x) (rooms d)\<rparr>)
      else Inl IntegrityError)"

text \<open>
  \<^verbatim>\<open>room.delete()\<close>. Modelled from the spec: the deletion cascades to the room's messages
  (spec 4.5), and the room's rows of the participants relation go with it.
\<close>

definition Room_delete :: "db \<Rightarrow> Room \<Rightarrow> db" where
  "Room_delete d r =
     d\<lparr>rooms := filter (\<lambda>x. room_id x \<noteq> room_id r) (rooms d),
       room_participants := filter (\<lambda>p. fst p \<noteq> room_id r) (room_participants d),
       messages := filter (\<lambda>m. message_room m \<noteq> room_id r) (messages d)\<rparr>"

definition Message_create ::
    "schema \<Rightarrow> db \<Rightarrow> nat \<Rightarrow> nat \<Rightarrow> string option \<Rightarrow> error + db" where
  "Message_create sch d user room body =
     (let m = \<lparr>message_id = fresh (map message_id (messages d)), message_user = user,
               message_room = room, message_body = body\<rparr>
      in if message_valid sch m then Inr (d\<lparr>messages := messages d @ [m]\<rparr>)
         else Inl IntegrityError)"

definition Message_delete :: "db \<Rightarrow> Message \<Rightarrow> db" where
  "Message_delete d m =
     d\<lparr>messages := filter (\<lambda>x. message_id x \<noteq> message_id m) (messages d)\<rparr>"

text \<open>
  \<^verbatim>\<open>room.participants.add(user)\<close>: the ORM looks the pair up and inserts it only when it
  is missing.
\<close>

definition participants_add :: "db \<Rightarrow> nat \<Rightarrow> nat \<Rightarrow> db" where
  "participants_add d room user =
     (if (room, user) \<in> set (room_participants d) then d
      else d\<lparr>room_participants := room_participants d @ [(room, user)]\<rparr>)"

definition participants_all :: "db \<Rightarrow> nat \<Rightarrow> nat list" where
  "participants_all d room = map snd (filter (\<lambda>p. fst p = room) (room_participants d))"

text \<open>\<^verbatim>\<open>user.save()\<close> of a new row: the store gives it its key.\<close>

definition User_save :: "schema \<Rightarrow> db \<Rightarrow> User \<Rightarrow> error + (User \<times> db)" where
  "User_save sch d u =
     (let u' = u\<lparr>user_id := fresh (map user_id (users d))\<rparr>
      in if user_valid sch (users d) u' then Inr (u', d\<lparr>users := users d @ [u']\<rparr>)
         else Inl IntegrityError)"

subsection \<open>topicsPage\<close>

definition topicsPage :: "db \<Rightarrow> request \<Rightarrow> response" where
  "topicsPage d request =
     (let q = GET_get request ''q'' '''';
          topics' = filter (\<lambda>t. icontains q (topic_name t)) (topics d)
      in Render ''base/topics.html'' (TopicsContext topics'))"

subsection \<open>loginPage and registerPage\<close>

text \<open>
  The session of a request: who is logged in, and the messages recorded with
  \<^verbatim>\<open>messages.error\<close>. \<^verbatim>\<open>authenticate\<close> is the configured authentication backend and
  \<^verbatim>\<open>MyUserCreationForm\<close> is declared in \<^verbatim>\<open>base/forms.py\<close>; both are outside the sources
  and are parameters: the backend answers with a user or with nothing, the form with the
  unsaved user when it is valid.

  \<^verbatim>\<open>str.lower()\<close> is the case mapping of the language's library, over all of Unicode;
  its tables are not part of the sources, and the mapping is the parameter \<open>str_lower\<close>
  of the two handlers that call it. Text is the byte string of its UTF-8 encoding.
\<close>

record session =
  session_user :: identity
  session_messages :: "string list"

definition messages_error :: "session \<Rightarrow> string \<Rightarrow> session" where
  "messages_error s text = s\<lparr>session_messages := session_messages s @ [text]\<rparr>"

definition login :: "session \<Rightarrow> User \<Rightarrow> session" where
  "login s u = s\<lparr>session_user := AuthUser (user_id u)\<rparr>"

definition loginPage ::
    "(string \<Rightarrow> string) \<Rightarrow> (db \<Rightarrow> string \<Rightarrow> string option \<Rightarrow> User option) \<Rightarrow> db \<Rightarrow> session
       \<Rightarrow> request \<Rightarrow> (error + response) \<times> session" where
  "loginPage str_lower authenticate d s request =
     (let page = ''login'' in
      if is_authenticated (req_user request) then (Inr (Redirect ''home'' None), s)
      else if req_method request = ''POST'' then
        (case POST request ''email'' of
           None \<Rightarrow> (Inl AttributeError, s)
         | Some e \<Rightarrow>
            (let email = str_lower e;
                 password = POST request ''password'';
                 s1 = (case get (\<lambda>u. user_email u = email) (users d) of
                         Inr user \<Rightarrow> s
                       | Inl exn \<Rightarrow> messages_error s ''User does not exist.'')
             in case authenticate d email password of
                  Some user \<Rightarrow> (Inr (Redirect ''home'' None), login s1 user)
                | None \<Rightarrow>
                    (Inr (Render ''base/login_register.html'' (LoginContext page)),
                     messages_error s1 ''Email or Password does not match'')))
      else (Inr (Render ''base/login_register.html'' (LoginContext page)), s))"

definition registerPage ::
    "(string \<Rightarrow> string) \<Rightarrow> ((string \<rightharpoonup> string) \<Rightarrow> db \<Rightarrow> User option) \<Rightarrow> schema \<Rightarrow> db
       \<Rightarrow> session \<Rightarrow> request \<Rightarrow> (error + response) \<times> db \<times> session" where
  "registerPage str_lower MyUserCreationForm sch d s request =
     (if req_method request = ''POST'' then
        (case MyUserCreationForm (POST request) d of
           Some user \<Rightarrow>
             (let user1 = user\<lparr>user_username := str_lower (user_username user)\<rparr>
              in case User_save sch d user1 of
                   Inl e \<Rightarrow> (Inl e, d, s)
                 | Inr (user2, d') \<Rightarrow> (Inr (Redirect ''home'' None), d', login s user2))
         | None \<Rightarrow>
             (Inr (Render ''base/login_register.html'' (RegisterContext True)), d,
              messages_error s ''Error occured during registration''))
      else (Inr (Render ''base/login_register.html'' (RegisterContext False)), d, s))"

subsection \<open>room\<close>

text \<open>
  A POST creates the message and adds the poster to the participants. The handler is not
  behind \<^verbatim>\<open>login_required\<close>; \<^verbatim>\<open>Message.objects.create(user=request.user, ...)\<close> with
  the anonymous identity raises \<^verbatim>\<open>ValueError\<close>, since that identity is not a
  \<^verbatim>\<open>User\<close> row.
\<close>

definition room :: "schema \<Rightarrow> db \<Rightarrow> request \<Rightarrow> nat \<Rightarrow> (error + response) \<times> db" where
  "room sch d request pk =
     (case get (\<lambda>r. room_id r = pk) (rooms d) of
        Inl e \<Rightarrow> (Inl e, d)
      | Inr our_room \<Rightarrow>
          (let room_messages = filter (\<lambda>m. message_room m = room_id our_room) (messages d);
               participants = participants_all d (room_id our_room)
           in if req_method request = ''POST'' then
                (case req_user request of
                   AnonymousUser \<Rightarrow> (Inl ValueError, d)
                 | AuthUser u \<Rightarrow>
                     (case Message_create sch d u (room_id our_room) (POST request ''body'') of
                        Inl e \<Rightarrow> (Inl e, d)
                      | Inr d1 \<Rightarrow>
                          (Inr (Redirect ''room'' (Some (room_id our_room))),
                           participants_add d1 (room_id our_room) u)))
              else (Inr (Render ''base/room.html''
                           (RoomContext our_room room_messages participants)), d)))"

subsection \<open>createRoom, updateRoom, deleteRoom, deleteMessage\<close>

text \<open>
  The four handlers are behind \<^verbatim>\<open>login_required(login_url='login')\<close>: the anonymous
  identity is redirected to the login page and the handler does not run.
\<close>

definition createRoom :: "schema \<Rightarrow> db \<Rightarrow> request \<Rightarrow> (error + response) \<times> db" where
  "createRoom sch d request =
     (case req_user request of
        AnonymousUser \<Rightarrow> (Inr (Redirect ''login'' None), d)
      | AuthUser u \<Rightarrow>
          if req_method request = ''POST'' then
            (let topic_name = POST request ''topic''
             in case Topic_get_or_create sch d topic_name of
                  Inl e \<Rightarrow> (Inl e, d)
                | Inr (topic, created, d1) \<Rightarrow>
                    (case Room_create sch d1 u (topic_id topic) (POST request ''name'')
                            (POST request ''description'') of
                       Inl e \<Rightarrow> (Inl e, d1)
                     | Inr d2 \<Rightarrow> (Inr (Redirect ''home'' None), d2)))
          else (Inr (Render ''base/room_form.html'' (RoomFormContext (topics d) None)), d))"

definition updateRoom :: "schema \<Rightarrow> db \<Rightarrow> request \<Rightarrow> nat \<Rightarrow> (error + response) \<times> db" where
  "updateRoom sch d request pk =
     (case req_user request of
        AnonymousUser \<Rightarrow> (Inr (Redirect ''login'' None), d)
      | AuthUser u \<Rightarrow>
          (case get (\<lambda>r. room_id r = pk) (rooms d) of
             Inl e \<Rightarrow> (Inl e, d)
           | Inr room' \<Rightarrow>
               if u \<noteq> room_host room'
               then (Inr (HttpResponse ''You are not allowed to do that!''), d)
               else if req_method request = ''POST'' then
                 (let topic_name = POST request ''topic''
                  in case Topic_get_or_create sch d topic_name of
                       Inl e \<Rightarrow> (Inl e, d)
                     | Inr (topic, created, d1) \<Rightarrow>
                         (let room1 = room'\<lparr>room_name := POST request ''name''\<rparr>;
                              room2 = room1\<lparr>room_topic := topic_id topic\<rparr>;
                              room3 = room2\<lparr>room_description := POST request ''description''\<rparr>
                          in case Room_save sch d1 room3 of
                               Inl e \<Rightarrow> (Inl e, d1)
                             | Inr d2 \<Rightarrow> (Inr (Redirect ''home'' None), d2)))
               else (Inr (Render ''base/room_form.html''
                            (RoomFormContext (topics d) (Some room'))), d)))"

definition deleteRoom :: "db \<Rightarrow> request \<Rightarrow> nat \<Rightarrow> (error + response) \<times> db" where
  "deleteRoom d request pk =
     (case req_user request of
        AnonymousUser \<Rightarrow> (Inr (Redirect ''login'' None), d)
      | AuthUser u \<Rightarrow>
          (case get (\<lambda>r. room_id r = pk) (rooms d) of
             Inl e \<Rightarrow> (Inl e, d)
           | Inr room' \<Rightarrow>
               if u \<noteq> room_host room'
               then (Inr (HttpResponse ''You are not allowed to do that!''), d)
               else if req_method request = ''POST''
               then (Inr (Redirect ''home'' None), Room_delete d room')
               else (Inr (Render ''base/delete.html'' (DeleteRoomContext room')), d)))"

definition deleteMessage :: "db \<Rightarrow> request \<Rightarrow> nat \<Rightarrow> (error + response) \<times> db" where
  "deleteMessage d request pk =
     (case req_user request of
        AnonymousUser \<Rightarrow> (Inr (Redirect ''login'' None), d)
      | AuthUser u \<Rightarrow>
          (case get (\<lambda>m. message_id m = pk) (messages d) of
             Inl e \<Rightarrow> (Inl e, d)
           | Inr message \<Rightarrow>
               if u \<noteq> message_user message
               then (Inr (HttpResponse ''You are not allowed to do that!''), d)
               else if req_method request = ''POST''
               then (Inr (Redirect ''home'' None), Message_delete d message)
               else (Inr (Render ''base/delete.html'' (DeleteMessageContext message)), d)))"

section \<open>Handlers of base/api/views.py\<close>

text \<open>
  Modelled from the spec: \<^verbatim>\<open>base/api/serializers.py\<close> is not among the sources; the
  payload has the fields of spec section 6, without the timestamps.
\<close>

definition RoomSerializer :: "db \<Rightarrow> Room \<Rightarrow> RoomPayload" where
  "RoomSerializer d r =
     \<lparr>payload_id = room_id r, payload_host = room_host r, payload_topic = room_topic r,
      payload_name = room_name r, payload_description = room_description r,
      payload_participants = participants_all d (room_id r)\<rparr>"

text \<open>
  \<^verbatim>\<open>api_view(['GET'])\<close> lets GET through to the handler, answers OPTIONS itself and
  refuses every other method. An exception of the handler that is not an API exception
  is raised again by the framework.
\<close>

definition getRoom :: "db \<Rightarrow> request \<Rightarrow> nat \<Rightarrow> error + response" where
  "getRoom d request pk =
     (if req_method request = ''GET'' then
        (case get (\<lambda>r. room_id r = pk) (rooms d) of
           Inl e \<Rightarrow> Inl e
         | Inr room' \<Rightarrow> Inr (Response (RoomSerializer d room')))
      else if req_method request = ''OPTIONS'' then Inr OptionsResponse
      else Inr MethodNotAllowed)"

section \<open>Invariants of the data model\<close>

text \<open>
  The invariants of spec section 3, as checks on a store: keys are unique, a room's
  topic and a message's room exist, topics and rooms have a name, and no two topics
  share a name.
\<close>

definition keys_unique :: "db \<Rightarrow> bool" where
  "keys_unique d =
     (distinct (map topic_id (topics d)) \<and> distinct (map room_id (rooms d))
      \<and> distinct (map message_id (messages d)) \<and> distinct (map user_id (users d)))"

definition rooms_have_topic :: "db \<Rightarrow> bool" where
  "rooms_have_topic d =
     list_all (\<lambda>r. list_ex (\<lambda>t. topic_id t = room_topic r) (topics d)) (rooms d)"

definition messages_have_room :: "db \<Rightarrow> bool" where
  "messages_have_room d =
     list_all (\<lambda>m. list_ex (\<lambda>r. room_id r = message_room m) (rooms d)) (messages d)"

definition topics_named :: "db \<Rightarrow> bool" where
  "topics_named d = list_all (\<lambda>t. topic_name t \<noteq> None) (topics d)"

definition topic_names_distinct :: "db \<Rightarrow> bool" where
  "topic_names_distinct d = distinct (map topic_name (topics d))"

section \<open>The listings in the words of the spec\<close>

text \<open>
  A room matches a query when the query is a case-insensitive substring of the name of
  the room's topic, or of the room's name, or of the room's description.
\<close>

definition room_matches :: "db \<Rightarrow> string \<Rightarrow> Room \<Rightarrow> bool" where
  "room_matches d q r =
     ((\<exists>t n. t \<in> set (topics d) \<and> topic_id t = room_topic r
             \<and> topic_name t = Some n \<and> ci_substring q n)
      \<or> (\<exists>n. room_name r = Some n \<and> ci_substring q n)
      \<or> (\<exists>s. room_description r = Some s \<and> ci_substring q s))"

text \<open>
  A message matches a query when the query is a case-insensitive substring of the name
  of the topic of the message's room.
\<close>

definition message_matches :: "db \<Rightarrow> string \<Rightarrow> Message \<Rightarrow> bool" where
  "message_matches d q m =
     (\<exists>r t n. r \<in> set (rooms d) \<and> room_id r = message_room m
              \<and> t \<in> set (topics d) \<and> topic_id t = room_topic r
              \<and> topic_name t = Some n \<and> ci_substring q n)"

section \<open>A small store\<close>

text \<open>
  Two users, two topics, two rooms, two messages: user 2 has posted "hi" in room 1,
  "Chess Club", which user 1 hosts under the topic "Games"; user 1 has posted "welcome"
  in room 2, which user 2 hosts.
\<close>

definition demo_schema :: schema where
  "demo_schema =
     \<lparr>topic_valid = (\<lambda>t. topic_name t \<noteq> None),
      room_valid = (\<lambda>r. room_name r \<noteq> None),
      message_valid = (\<lambda>m. message_body m \<noteq> None),
      user_valid = (\<lambda>us u. user_email u \<notin> set (map user_email us))\<rparr>"

definition demo_db :: db where
  "demo_db =
     \<lparr>users = [\<lparr>user_id = 1, user_username = ''alice'', user_email = ''a@x.com''\<rparr>,
               \<lparr>user_id = 2, user_username = ''bob'', user_email = ''b@x.com''\<rparr>],
      topics = [\<lparr>topic_id = 1, topic_name = Some ''Games''\<rparr>,
                \<lparr>topic_id = 2, topic_name = Some ''Python''\<rparr>],
      rooms = [\<lparr>room_id = 1, room_host = 1, room_topic = 1,
                 room_name = Some ''Chess Club'', room_description = Some ''Weekly games''\<rparr>,
               \<lparr>room_id = 2, room_host = 2, room_topic = 2,
                 room_name = Some ''Django help'', room_description = None\<rparr>],
      room_participants = [(1, 2)],
      messages = [\<lparr>message_id = 1, message_user = 2, message_room = 1,
                    message_body = Some ''hi''\<rparr>,
                  \<lparr>message_id = 2, message_user = 1, message_room = 2,
                    message_body = Some ''welcome''\<rparr>]\<rparr>"

definition demo_request ::
    "identity \<Rightarrow> string \<Rightarrow> (string \<times> string) list \<Rightarrow> (string \<times> string) list \<Rightarrow> request" where
  "demo_request who how get_data post_data =
     \<lparr>req_user = who, req_method = how, GET = map_of get_data, POST = map_of post_data\<rparr>"

text \<open>
  A backend that knows one password, and a registration form that asks for a username
  and for an email that no user has yet.
\<close>

definition demo_authenticate :: "db \<Rightarrow> string \<Rightarrow> string option \<Rightarrow> User option" where
  "demo_authenticate d email password =
     (case get (\<lambda>u. user_email u = email) (users d) of
        Inr u \<Rightarrow> if password = Some ''secret'' then Some u else None
      | Inl e \<Rightarrow> None)"


definition demo_session :: session where
  "demo_session = \<lparr>session_user = AnonymousUser, session_messages = []\<rparr>"

section \<open>Upper-case characters\<close>




section \<open>Requests in sequence\<close>

text \<open>The store after a sequence of requests to the room handler for one room.\<close>

fun room_posts :: "schema \<Rightarrow> db \<Rightarrow> request list \<Rightarrow> nat \<Rightarrow> db" where
  "room_posts sch d [] pk = d"
| "room_posts sch d (request # requests) pk =
     room_posts sch (snd (room sch d request pk)) requests pk"

section \<open>Stores that the handlers produce\<close>

text \<open>
  \<open>store_ok\<close> collects the invariants, together with the fact that the store has
  accepted every topic row. \<open>reachable\<close> are the stores that the handlers which write
  produce, one request after the other, from the empty store.
\<close>

definition store_ok :: "schema \<Rightarrow> db \<Rightarrow> bool" where
  "store_ok sch d = (keys_unique d \<and> rooms_have_topic d \<and> messages_have_room d
      \<and> topic_names_distinct d \<and> list_all (topic_valid sch) (topics d))"

definition empty_db :: db where
  "empty_db = \<lparr>users = [], topics = [], rooms = [], room_participants = [], messages = []\<rparr>"

inductive reachable ::
    "schema \<Rightarrow> (string \<Rightarrow> string) \<Rightarrow> ((string \<rightharpoonup> string) \<Rightarrow> db \<Rightarrow> User option) \<Rightarrow> db \<Rightarrow> bool"
    for sch :: schema and str_lower :: "string \<Rightarrow> string"
      and form :: "(string \<rightharpoonup> string) \<Rightarrow> db \<Rightarrow> User option" where
  start: "reachable sch str_lower form empty_db"
| after_createRoom:
    "reachable sch str_lower form d \<Longrightarrow> reachable sch str_lower form (snd (createRoom sch d request))"
| after_updateRoom:
    "reachable sch str_lower form d \<Longrightarrow> reachable sch str_lower form (snd (updateRoom sch d request pk))"
| after_deleteRoom:
    "reachable sch str_lower form d \<Longrightarrow> reachable sch str_lower form (snd (deleteRoom d request pk))"
| after_deleteMessage:
    "reachable sch str_lower form d \<Longrightarrow> reachable sch str_lower form (snd (deleteMessage d request pk))"
| after_room:
    "reachable sch str_lower form d \<Longrightarrow> reachable sch str_lower form (snd (room sch d request pk))"
| after_registerPage:
    "reachable sch str_lower form d \<Longrightarrow>
       reachable sch str_lower form (fst (snd (registerPage str_lower form sch d s request)))"

section \<open>The search\<close>

lemma starts_with_iff: "starts_with xs ys \<longleftrightarrow> (\<exists>suf. ys = xs @ suf)"
  by (induction xs ys rule: starts_with.induct) auto

lemma contains_iff: "contains xs ys \<longleftrightarrow> (\<exists>pre suf. ys = pre @ xs @ suf)"
proof (induction ys)
  case Nil
  show ?case by auto
next
  case (Cons y ys)
  show ?case
  proof
    assume "contains xs (y # ys)"
    then consider "starts_with xs (y # ys)" | "contains xs ys" by auto
    then show "\<exists>pre suf. y # ys = pre @ xs @ suf"
    proof cases
      case 1
      then obtain suf where "y # ys = xs @ suf" by (auto simp: starts_with_iff)
      then have "y # ys = [] @ xs @ suf" by simp
      then show ?thesis by blast
    next
      case 2
      then obtain pre suf where "ys = pre @ xs @ suf" using Cons.IH by auto
      then have "y # ys = (y # pre) @ xs @ suf" by simp
      then show ?thesis by blast
    qed
  next
    assume "\<exists>pre suf. y # ys = pre @ xs @ suf"
    then obtain pre suf where e: "y # ys = pre @ xs @ suf" by auto
    show "contains xs (y # ys)"
    proof (cases pre)
      case Nil
      with e have "starts_with xs (y # ys)" by (auto simp: starts_with_iff)
      then show ?thesis by simp
    next
      case (Cons p ps)
      with e have "ys = ps @ xs @ suf" by simp
      then have "contains xs ys" using Cons.IH by auto
      then show ?thesis by simp
    qed
  qed
qed

lemma icontains_iff: "icontains q col \<longleftrightarrow> (\<exists>s. col = Some s \<and> ci_substring q s)"
  by (cases col) (auto simp: ci_substring_def contains_iff)

lemma topic__name__icontains_iff:
  "topic__name__icontains d q r \<longleftrightarrow>
     (\<exists>t n. t \<in> set (topics d) \<and> topic_id t = room_topic r
            \<and> topic_name t = Some n \<and> ci_substring q n)"
  unfolding topic__name__icontains_def list_ex_iff icontains_iff by blast

lemma room_filter_iff:
  "(topic__name__icontains d q r \<or> icontains q (room_name r)
      \<or> icontains q (room_description r)) \<longleftrightarrow> room_matches d q r"
  unfolding room_matches_def topic__name__icontains_iff icontains_iff by blast

lemma message_filter_iff: "room__topic__name__icontains d q m \<longleftrightarrow> message_matches d q m"
  unfolding room__topic__name__icontains_def message_matches_def list_ex_iff
    topic__name__icontains_iff by blast

lemma message_filter_eq: "room__topic__name__icontains d q = message_matches d q"
  by (rule ext) (rule message_filter_iff)

lemma home_rooms: "context_rooms (home d request)
    = filter (room_matches d (GET_get request ''q'' '''')) (rooms d)"
  by (simp add: home_def Let_def room_filter_iff)

lemma home_room_count: "context_room_count (home d request)
    = length (context_rooms (home d request))"
  by (simp add: home_def Let_def)

lemma home_room_messages: "context_room_messages (home d request)
    = filter (message_matches d (GET_get request ''q'' '''')) (messages d)"
  by (simp add: home_def Let_def message_filter_eq)

section \<open>The home listing\<close>

text \<open>
  C1. For every query string, the rooms of the home listing are exactly the rooms of the
  store that match it: the query is a case-insensitive substring of the room's topic
  name, of the room's name or of the room's description. The reported room count is the
  number of rooms in that listing, not the number of rooms in the store.
\<close>

theorem home_rooms_exact:
  "GET request ''q'' = Some q \<Longrightarrow>
     context_rooms (home d request) = filter (room_matches d q) (rooms d)
     \<and> context_room_count (home d request) = length (filter (room_matches d q) (rooms d))"
  using home_rooms [of d request] home_room_count [of d request]
  by (simp add: GET_get_def)

theorem home_rooms_exact_witness:
  "GET (demo_request AnonymousUser ''GET'' [(''q'', ''CHESS'')] []) ''q'' = Some ''CHESS''
   \<and> context_rooms (home demo_db (demo_request AnonymousUser ''GET'' [(''q'', ''CHESS'')] []))
       = [\<lparr>room_id = 1, room_host = 1, room_topic = 1,
            room_name = Some ''Chess Club'', room_description = Some ''Weekly games''\<rparr>]
   \<and> filter (room_matches demo_db ''CHESS'') (rooms demo_db)
       = [\<lparr>room_id = 1, room_host = 1, room_topic = 1,
            room_name = Some ''Chess Club'', room_description = Some ''Weekly games''\<rparr>]
   \<and> context_room_count (home demo_db (demo_request AnonymousUser ''GET'' [(''q'', ''CHESS'')] []))
       = 1
   \<and> length (rooms demo_db) = 2"
proof -
  let ?rq = "demo_request AnonymousUser ''GET'' [(''q'', ''CHESS'')] []"
  have h: "GET ?rq ''q'' = Some ''CHESS''"
    by (simp add: demo_request_def)
  have e: "context_rooms (home demo_db ?rq)
      = [\<lparr>room_id = 1, room_host = 1, room_topic = 1,
           room_name = Some ''Chess Club'', room_description = Some ''Weekly games''\<rparr>]"
    by code_simp
  have l: "length (rooms demo_db) = 2"
    by (simp add: demo_db_def)
  note t = home_rooms_exact [OF h, of demo_db]
  from t e have f: "filter (room_matches demo_db ''CHESS'') (rooms demo_db)
      = [\<lparr>room_id = 1, room_host = 1, room_topic = 1,
           room_name = Some ''Chess Club'', room_description = Some ''Weekly games''\<rparr>]"
    by (simp only:)
  from t f have c: "context_room_count (home demo_db ?rq) = 1"
    by simp
  from h e f c l show ?thesis
    by (simp only: simp_thms)
qed

text \<open>
  C6. For every query string, the messages shown on the home page are exactly the
  messages whose room's topic name contains the query, ignoring case. The body of a
  message plays no role: rewriting the bodies in the store in any way selects the same
  messages.
\<close>

theorem home_messages_by_topic_only:
  "GET request ''q'' = Some q \<Longrightarrow>
     context_room_messages (home d request) = filter (message_matches d q) (messages d)
     \<and> context_room_messages
          (home (d\<lparr>messages := map (\<lambda>m. m\<lparr>message_body := f m\<rparr>) (messages d)\<rparr>) request)
        = map (\<lambda>m. m\<lparr>message_body := f m\<rparr>) (context_room_messages (home d request))"
proof -
  assume q: "GET request ''q'' = Some q"
  let ?g = "\<lambda>m. m\<lparr>message_body := f m\<rparr>"
  let ?d = "d\<lparr>messages := map ?g (messages d)\<rparr>"
  have a: "context_room_messages (home d request) = filter (message_matches d q) (messages d)"
    using home_room_messages [of d request] q by (simp add: GET_get_def)
  have "room__topic__name__icontains ?d q (?g m) = room__topic__name__icontains d q m" for m
    by (simp add: room__topic__name__icontains_def topic__name__icontains_def)
  then have "filter (room__topic__name__icontains ?d q) (map ?g (messages d))
      = map ?g (filter (room__topic__name__icontains d q) (messages d))"
    by (simp add: filter_map comp_def)
  then have b: "context_room_messages (home ?d request)
      = map ?g (context_room_messages (home d request))"
    using q by (simp add: home_def Let_def GET_get_def)
  from a b show ?thesis by simp
qed

theorem home_messages_by_topic_only_witness:
  "GET (demo_request AnonymousUser ''GET'' [(''q'', ''hi'')] []) ''q'' = Some ''hi''
   \<and> context_room_messages (home demo_db (demo_request AnonymousUser ''GET'' [(''q'', ''hi'')] []))
       = []
   \<and> filter (message_matches demo_db ''hi'') (messages demo_db) = []
   \<and> map message_body (messages demo_db) = [Some ''hi'', Some ''welcome'']"
proof -
  let ?rq = "demo_request AnonymousUser ''GET'' [(''q'', ''hi'')] []"
  have h: "GET ?rq ''q'' = Some ''hi''"
    by (simp add: demo_request_def)
  have e: "context_room_messages (home demo_db ?rq) = []"
    by code_simp
  have b: "map message_body (messages demo_db) = [Some ''hi'', Some ''welcome'']"
    by (simp add: demo_db_def)
  note t = home_messages_by_topic_only [OF h, of demo_db message_body]
  from t e have f: "filter (message_matches demo_db ''hi'') (messages demo_db) = []"
    by (simp only:)
  from h e f b show ?thesis
    by (simp only: simp_thms)
qed

text \<open>
  C7. With an empty query, or none, the three filters match every row of a store that
  satisfies the invariants of the data model (each room has a topic, each message has a
  room, each topic has a name): the home listing has every room, the home message list
  has every message, and the topics listing has every topic.
\<close>

theorem empty_query_matches_everything:
  assumes "GET request ''q'' = None \<or> GET request ''q'' = Some ''''"
    and "rooms_have_topic d" and "messages_have_room d" and "topics_named d"
  shows "context_rooms (home d request) = rooms d
     \<and> context_room_messages (home d request) = messages d
     \<and> context_topics (topicsPage d request) = topics d"
proof -
  from assms(1) have q: "GET_get request ''q'' '''' = ''''"
    by (auto simp: GET_get_def)
  have c: "contains [] (ys :: string)" for ys
    by (cases ys) simp_all
  have t: "icontains '''' (topic_name t)" if "t \<in> set (topics d)" for t
  proof -
    from that assms(4) obtain n where "topic_name t = Some n"
      by (auto simp: topics_named_def list_all_iff)
    then show ?thesis by (simp add: lower_def c)
  qed
  have r: "topic__name__icontains d '''' r" if "r \<in> set (rooms d)" for r
  proof -
    from that assms(2) obtain t where "t \<in> set (topics d)" "topic_id t = room_topic r"
      by (auto simp: rooms_have_topic_def list_all_iff list_ex_iff)
    with t show ?thesis
      by (auto simp: topic__name__icontains_def list_ex_iff)
  qed
  have m: "room__topic__name__icontains d '''' m" if "m \<in> set (messages d)" for m
  proof -
    from that assms(3) obtain x where "x \<in> set (rooms d)" "room_id x = message_room m"
      by (auto simp: messages_have_room_def list_all_iff list_ex_iff)
    with r show ?thesis
      by (auto simp: room__topic__name__icontains_def list_ex_iff)
  qed
  have "filter (\<lambda>r. topic__name__icontains d '''' r \<or> icontains '''' (room_name r)
            \<or> icontains '''' (room_description r)) (rooms d) = rooms d"
    using r by (simp add: filter_id_conv)
  then have 1: "context_rooms (home d request) = rooms d"
    by (simp add: home_def Let_def q)
  have "filter (room__topic__name__icontains d '''') (messages d) = messages d"
    using m by (simp add: filter_id_conv)
  then have 2: "context_room_messages (home d request) = messages d"
    by (simp add: home_def Let_def q)
  have "filter (\<lambda>t. icontains '''' (topic_name t)) (topics d) = topics d"
    using t by (simp add: filter_id_conv)
  then have 3: "context_topics (topicsPage d request) = topics d"
    by (simp add: topicsPage_def Let_def q)
  from 1 2 3 show ?thesis by simp
qed

theorem empty_query_matches_everything_witness:
  "(GET (demo_request AnonymousUser ''GET'' [] []) ''q'' = None
      \<or> GET (demo_request AnonymousUser ''GET'' [] []) ''q'' = Some '''')
   \<and> rooms_have_topic demo_db \<and> messages_have_room demo_db \<and> topics_named demo_db
   \<and> context_rooms (home demo_db (demo_request AnonymousUser ''GET'' [] [])) = rooms demo_db
   \<and> context_room_messages (home demo_db (demo_request AnonymousUser ''GET'' [] []))
       = messages demo_db
   \<and> context_topics (topicsPage demo_db (demo_request AnonymousUser ''GET'' [] []))
       = topics demo_db
   \<and> length (rooms demo_db) = 2"
proof -
  let ?rq = "demo_request AnonymousUser ''GET'' [] []"
  have h1: "GET ?rq ''q'' = None \<or> GET ?rq ''q'' = Some ''''"
    by (simp add: demo_request_def)
  have h2: "rooms_have_topic demo_db"
    by (simp add: rooms_have_topic_def demo_db_def)
  have h3: "messages_have_room demo_db"
    by (simp add: messages_have_room_def demo_db_def)
  have h4: "topics_named demo_db"
    by (simp add: topics_named_def demo_db_def)
  have l: "length (rooms demo_db) = 2"
    by (simp add: demo_db_def)
  from empty_query_matches_everything [OF h1 h2 h3 h4] h1 h2 h3 h4 l show ?thesis
    by (simp only: simp_thms)
qed

section \<open>Lookups by key\<close>

lemma filter_key_unique:
  "distinct (map k xs) \<Longrightarrow> x \<in> set xs \<Longrightarrow> filter (\<lambda>y. k y = k x) xs = [x]"
proof (induction xs)
  case Nil
  then show ?case by simp
next
  case (Cons a xs)
  show ?case
  proof (cases "a = x")
    case True
    from Cons.prems(1) have "k x \<notin> k ` set xs" using True by simp
    then have "\<forall>y \<in> set xs. k y \<noteq> k x" by (metis imageI)
    then have "filter (\<lambda>y. k y = k x) xs = []"
      by (simp add: filter_empty_conv)
    with True show ?thesis by simp
  next
    case False
    with Cons.prems have x: "x \<in> set xs" by simp
    with Cons.prems(1) have "k a \<noteq> k x" by force
    with Cons.IH Cons.prems(1) x show ?thesis by simp
  qed
qed

lemma get_by_key:
  "distinct (map k xs) \<Longrightarrow> x \<in> set xs \<Longrightarrow> get (\<lambda>y. k y = k x) xs = Inr x"
  by (simp add: get_def filter_key_unique)

lemma get_missing: "v \<notin> k ` set xs \<Longrightarrow> get (\<lambda>y. k y = v) xs = Inl DoesNotExist"
proof -
  assume "v \<notin> k ` set xs"
  then have "\<forall>y \<in> set xs. k y \<noteq> v" by (metis imageI)
  then have "filter (\<lambda>y. k y = v) xs = []"
    by (simp add: filter_empty_conv)
  then show ?thesis by (simp add: get_def)
qed

lemma get_Inr: "get P xs = Inr x \<Longrightarrow> x \<in> set xs \<and> P x"
proof -
  assume g: "get P xs = Inr x"
  then have "filter P xs = [x]"
    by (auto simp: get_def split: list.splits)
  then have "x \<in> set (filter P xs)" by simp
  then show ?thesis by simp
qed

lemma get_DoesNotExist: "get P xs = Inl DoesNotExist \<Longrightarrow> \<forall>x \<in> set xs. \<not> P x"
proof -
  assume "get P xs = Inl DoesNotExist"
  then have "filter P xs = []"
    by (auto simp: get_def split: list.splits)
  then show ?thesis by (simp add: filter_empty_conv)
qed

section \<open>The ownership gate\<close>

text \<open>
  C2. An authenticated identity that is not the host of a room gets the plain text
  "You are not allowed to do that!" from updateRoom and from deleteRoom, whatever the
  method and the form data, and the store is returned as it was; the same holds for
  deleteMessage and an identity that is not the author of the message.
\<close>

theorem not_owner_not_allowed:
  assumes "req_user request = AuthUser u" and "keys_unique d"
  shows "(\<forall>r \<in> set (rooms d). room_host r \<noteq> u \<longrightarrow>
            updateRoom sch d request (room_id r)
              = (Inr (HttpResponse ''You are not allowed to do that!''), d)
            \<and> deleteRoom d request (room_id r)
              = (Inr (HttpResponse ''You are not allowed to do that!''), d))
       \<and> (\<forall>m \<in> set (messages d). message_user m \<noteq> u \<longrightarrow>
            deleteMessage d request (message_id m)
              = (Inr (HttpResponse ''You are not allowed to do that!''), d))"
proof (intro conjI ballI impI)
  fix r assume r: "r \<in> set (rooms d)" and h: "room_host r \<noteq> u"
  from assms(2) r have g: "get (\<lambda>x. room_id x = room_id r) (rooms d) = Inr r"
    by (simp add: keys_unique_def get_by_key)
  from g h assms(1) show "updateRoom sch d request (room_id r)
      = (Inr (HttpResponse ''You are not allowed to do that!''), d)"
    by (auto simp: updateRoom_def)
  from g h assms(1) show "deleteRoom d request (room_id r)
      = (Inr (HttpResponse ''You are not allowed to do that!''), d)"
    by (auto simp: deleteRoom_def)
next
  fix m assume m: "m \<in> set (messages d)" and h: "message_user m \<noteq> u"
  from assms(2) m have g: "get (\<lambda>x. message_id x = message_id m) (messages d) = Inr m"
    by (simp add: keys_unique_def get_by_key)
  from g h assms(1) show "deleteMessage d request (message_id m)
      = (Inr (HttpResponse ''You are not allowed to do that!''), d)"
    by (auto simp: deleteMessage_def)
qed

theorem not_owner_not_allowed_witness:
  "req_user (demo_request (AuthUser 2) ''POST'' [] [(''name'', ''Mine now'')]) = AuthUser 2
   \<and> keys_unique demo_db
   \<and> updateRoom demo_schema demo_db
        (demo_request (AuthUser 2) ''POST'' [] [(''name'', ''Mine now'')]) 1
       = (Inr (HttpResponse ''You are not allowed to do that!''), demo_db)
   \<and> deleteRoom demo_db (demo_request (AuthUser 2) ''POST'' [] [(''name'', ''Mine now'')]) 1
       = (Inr (HttpResponse ''You are not allowed to do that!''), demo_db)
   \<and> deleteMessage demo_db (demo_request (AuthUser 2) ''POST'' [] [(''name'', ''Mine now'')]) 2
       = (Inr (HttpResponse ''You are not allowed to do that!''), demo_db)"
proof -
  let ?rq = "demo_request (AuthUser 2) ''POST'' [] [(''name'', ''Mine now'')]"
  let ?r = "\<lparr>room_id = 1, room_host = 1, room_topic = 1,
             room_name = Some ''Chess Club'', room_description = Some ''Weekly games''\<rparr>"
  let ?m = "\<lparr>message_id = 2, message_user = 1, message_room = 2,
             message_body = Some ''welcome''\<rparr>"
  have h1: "req_user ?rq = AuthUser 2"
    by (simp add: demo_request_def)
  have h2: "keys_unique demo_db"
    by (simp add: keys_unique_def demo_db_def)
  have r: "?r \<in> set (rooms demo_db)" and m: "?m \<in> set (messages demo_db)"
    by (simp_all add: demo_db_def)
  note t = not_owner_not_allowed [OF h1 h2, of demo_schema]
  from t r have a: "updateRoom demo_schema demo_db ?rq 1
        = (Inr (HttpResponse ''You are not allowed to do that!''), demo_db)
      \<and> deleteRoom demo_db ?rq 1
        = (Inr (HttpResponse ''You are not allowed to do that!''), demo_db)"
    by fastforce
  from t m have b: "deleteMessage demo_db ?rq 2
        = (Inr (HttpResponse ''You are not allowed to do that!''), demo_db)"
    by fastforce
  from h1 h2 a b show ?thesis
    by (simp only: simp_thms)
qed

section \<open>The read API\<close>

text \<open>
  C5, as amended. A GET of a single room with a key that no room has gives the caller
  no response of the handler: the lookup raises \<open>DoesNotExist\<close>, the handler does not
  catch it, and the caller gets what every exception that nothing catches gives, the
  server error with status 500; no payload is produced. \<open>DoesNotExist\<close> is raised
  exactly when no room has the key; when a room has the key (keys being unique) the
  answer is that room's payload.
\<close>

theorem getRoom_missing_key_raises:
  assumes "req_method request = ''GET''"
  shows "(pk \<notin> room_id ` set (rooms d) \<longrightarrow>
            getRoom d request pk = Inl DoesNotExist
            \<and> http_status (getRoom d request pk) = 500
            \<and> (\<forall>e. http_status (getRoom d request pk) = http_status (Inl e)))
     \<and> (getRoom d request pk = Inl DoesNotExist \<longrightarrow> pk \<notin> room_id ` set (rooms d))
     \<and> (\<forall>r \<in> set (rooms d). keys_unique d \<longrightarrow>
           getRoom d request (room_id r) = Inr (Response (RoomSerializer d r)))"
proof (intro conjI impI ballI allI)
  assume "pk \<notin> room_id ` set (rooms d)"
  then have "get (\<lambda>r. room_id r = pk) (rooms d) = Inl DoesNotExist"
    by (rule get_missing)
  with assms show e: "getRoom d request pk = Inl DoesNotExist"
    by (simp add: getRoom_def)
  then show "http_status (getRoom d request pk) = 500"
    by simp
  from e show "http_status (getRoom d request pk) = http_status (Inl e')" for e'
    by simp
next
  assume "getRoom d request pk = Inl DoesNotExist"
  with assms have "get (\<lambda>r. room_id r = pk) (rooms d) = Inl DoesNotExist"
    by (simp add: getRoom_def split: sum.splits)
  then have "\<forall>r \<in> set (rooms d). room_id r \<noteq> pk"
    by (rule get_DoesNotExist)
  then show "pk \<notin> room_id ` set (rooms d)" by auto
next
  fix r assume "r \<in> set (rooms d)" "keys_unique d"
  then have "get (\<lambda>x. room_id x = room_id r) (rooms d) = Inr r"
    by (simp add: keys_unique_def get_by_key)
  with assms show "getRoom d request (room_id r) = Inr (Response (RoomSerializer d r))"
    by (simp add: getRoom_def)
qed

theorem getRoom_missing_key_raises_witness:
  "req_method (demo_request AnonymousUser ''GET'' [] []) = ''GET''
   \<and> 7 \<notin> room_id ` set (rooms demo_db)
   \<and> getRoom demo_db (demo_request AnonymousUser ''GET'' [] []) 7 = Inl DoesNotExist
   \<and> http_status (getRoom demo_db (demo_request AnonymousUser ''GET'' [] []) 7) = 500
   \<and> http_status (getRoom demo_db (demo_request AnonymousUser ''GET'' [] []) 7)
       = http_status (Inl ValueError)
   \<and> getRoom demo_db (demo_request AnonymousUser ''GET'' [] []) 2
       = Inr (Response \<lparr>payload_id = 2, payload_host = 2, payload_topic = 2,
                         payload_name = Some ''Django help'', payload_description = None,
                         payload_participants = []\<rparr>)"
proof -
  let ?rq = "demo_request AnonymousUser ''GET'' [] []"
  have h: "req_method ?rq = ''GET''"
    by (simp add: demo_request_def)
  have n: "7 \<notin> room_id ` set (rooms demo_db)"
    by (simp add: demo_db_def)
  have k: "keys_unique demo_db"
    by (simp add: keys_unique_def demo_db_def)
  have r: "\<lparr>room_id = 2, room_host = 2, room_topic = 2, room_name = Some ''Django help'',
            room_description = None\<rparr> \<in> set (rooms demo_db)"
    by (simp add: demo_db_def)
  note t = getRoom_missing_key_raises [OF h, of _ demo_db]
  from t [of 7] n have a: "getRoom demo_db ?rq 7 = Inl DoesNotExist"
    and s: "http_status (getRoom demo_db ?rq 7) = 500"
    and o: "http_status (getRoom demo_db ?rq 7) = http_status (Inl ValueError)"
    by blast+
  from t [of 0] r k have "getRoom demo_db ?rq 2
      = Inr (Response (RoomSerializer demo_db \<lparr>room_id = 2, room_host = 2, room_topic = 2,
             room_name = Some ''Django help'', room_description = None\<rparr>))"
    by fastforce
  then have b: "getRoom demo_db ?rq 2
       = Inr (Response \<lparr>payload_id = 2, payload_host = 2, payload_topic = 2,
                         payload_name = Some ''Django help'', payload_description = None,
                         payload_participants = []\<rparr>)"
    by (simp add: RoomSerializer_def participants_all_def demo_db_def)
  from h n a s o b show ?thesis
    by (simp only: simp_thms)
qed

text \<open>
  C5 as the spec has it does not hold: for the key 7, which no room of the small store
  has, the caller does not get a not-found answer (status 404) but the server error of
  an exception that nothing catches, the same as from the page handlers \<open>room\<close>,
  \<open>updateRoom\<close> and \<open>deleteRoom\<close> on that key.
\<close>

theorem getRoom_missing_key_not_404:
  "http_status (getRoom demo_db (demo_request AnonymousUser ''GET'' [] []) 7) \<noteq> 404
   \<and> http_status (getRoom demo_db (demo_request AnonymousUser ''GET'' [] []) 7) = 500
   \<and> getRoom demo_db (demo_request AnonymousUser ''GET'' [] []) 7 = Inl DoesNotExist
   \<and> fst (room demo_schema demo_db (demo_request AnonymousUser ''GET'' [] []) 7)
       = Inl DoesNotExist
   \<and> fst (updateRoom demo_schema demo_db (demo_request (AuthUser 1) ''GET'' [] []) 7)
       = Inl DoesNotExist
   \<and> fst (deleteRoom demo_db (demo_request (AuthUser 1) ''GET'' [] []) 7)
       = Inl DoesNotExist"
  by code_simp

section \<open>Updating a room\<close>

lemma get_Inr_unique: "get P xs = Inr x \<Longrightarrow> \<forall>y \<in> set xs. P y \<longrightarrow> y = x"
proof -
  assume "get P xs = Inr x"
  then have "filter P xs = [x]"
    by (auto simp: get_def split: list.splits)
  then have "set (filter P xs) = {x}"
    by simp
  then show ?thesis by auto
qed

lemma Topic_get_or_create_frame:
  assumes "Topic_get_or_create sch d name = Inr (t, created, d1)"
  shows "users d1 = users d \<and> rooms d1 = rooms d
     \<and> room_participants d1 = room_participants d \<and> messages d1 = messages d
     \<and> t \<in> set (topics d1) \<and> topic_name t = name
     \<and> (if created then topics d1 = topics d @ [t] else topics d1 = topics d)"
proof (cases "get (\<lambda>t. topic_name t = name) (topics d)")
  case (Inl e)
  with assms show ?thesis
    by (auto simp: Topic_get_or_create_def Let_def split: if_splits)
next
  case (Inr x)
  with assms have "t = x" "created = False" "d1 = d"
    by (auto simp: Topic_get_or_create_def)
  with get_Inr [OF Inr] show ?thesis by simp
qed

lemma updateRoom_success:
  assumes "updateRoom sch d request pk = (Inr (Redirect ''home'' None), d')"
  shows "\<exists>room' t created d1.
           req_user request = AuthUser (room_host room')
           \<and> req_method request = ''POST''
           \<and> get (\<lambda>r. room_id r = pk) (rooms d) = Inr room'
           \<and> Topic_get_or_create sch d (POST request ''topic'') = Inr (t, created, d1)
           \<and> d' = d1\<lparr>rooms := map (\<lambda>x. if room_id x = pk
                 then room'\<lparr>room_name := POST request ''name'', room_topic := topic_id t,
                            room_description := POST request ''description''\<rparr>
                 else x) (rooms d1)\<rparr>"
proof (cases "req_user request")
  case AnonymousUser
  with assms show ?thesis by (simp add: updateRoom_def)
next
  case (AuthUser u)
  show ?thesis
  proof (cases "get (\<lambda>r. room_id r = pk) (rooms d)")
    case (Inl e)
    with assms AuthUser show ?thesis by (simp add: updateRoom_def)
  next
    case (Inr room')
    from get_Inr [OF Inr] have pk: "room_id room' = pk" by simp
    from assms AuthUser Inr have u: "u = room_host room'"
      by (auto simp: updateRoom_def split: if_splits)
    from assms AuthUser Inr u have p: "req_method request = ''POST''"
      by (auto simp: updateRoom_def split: if_splits)
    show ?thesis
    proof (cases "Topic_get_or_create sch d (POST request ''topic'')")
      case (Inl e)
      with assms AuthUser Inr u p show ?thesis
        by (simp add: updateRoom_def)
    next
      case r: (Inr res)
      obtain t created d1 where res: "res = (t, created, d1)"
        by (cases res) auto
      let ?room3 = "room'\<lparr>room_name := POST request ''name'', room_topic := topic_id t,
                          room_description := POST request ''description''\<rparr>"
      from assms AuthUser Inr u p r res
      have "d' = d1\<lparr>rooms := map (\<lambda>x. if room_id x = pk then ?room3 else x) (rooms d1)\<rparr>"
        by (auto simp: updateRoom_def Let_def Room_save_def pk split: if_splits)
      with AuthUser Inr u p r res show ?thesis by blast
    qed
  qed
qed

text \<open>
  C8. When updateRoom succeeds (it redirects to the home page, which it does only for a
  POST by the room's host), the rooms table is the old one with the name, the topic and
  the description of the room replaced by the submitted ones: every room keeps its key
  and its host, every other room is untouched, and the participants relation, the
  messages and the users are the same.
\<close>

theorem updateRoom_frame:
  assumes "updateRoom sch d request pk = (Inr (Redirect ''home'' None), d')"
  shows "(\<exists>t \<in> set (topics d'). topic_name t = POST request ''topic''
           \<and> rooms d' = map (\<lambda>r. if room_id r = pk
                 then r\<lparr>room_name := POST request ''name'', room_topic := topic_id t,
                        room_description := POST request ''description''\<rparr>
                 else r) (rooms d))
     \<and> map room_id (rooms d') = map room_id (rooms d)
     \<and> map room_host (rooms d') = map room_host (rooms d)
     \<and> room_participants d' = room_participants d
     \<and> (\<forall>k. participants_all d' k = participants_all d k)
     \<and> messages d' = messages d \<and> users d' = users d"
proof -
  from updateRoom_success [OF assms] obtain room' t created d1 where
    g: "get (\<lambda>r. room_id r = pk) (rooms d) = Inr room'" and
    c: "Topic_get_or_create sch d (POST request ''topic'') = Inr (t, created, d1)" and
    d': "d' = d1\<lparr>rooms := map (\<lambda>x. if room_id x = pk
                 then room'\<lparr>room_name := POST request ''name'', room_topic := topic_id t,
                            room_description := POST request ''description''\<rparr>
                 else x) (rooms d1)\<rparr>"
    by blast
  let ?upd = "\<lambda>t r. if room_id r = pk
                 then r\<lparr>room_name := POST request ''name'', room_topic := topic_id t,
                        room_description := POST request ''description''\<rparr>
                 else r"
  note f = Topic_get_or_create_frame [OF c]
  from get_Inr_unique [OF g] have same: "\<forall>y \<in> set (rooms d). room_id y = pk \<longrightarrow> y = room'" .
  have rs: "rooms d' = map (?upd t) (rooms d)"
    unfolding d' using f same by (auto intro!: map_cong)
  from f d' have t: "t \<in> set (topics d')" "topic_name t = POST request ''topic''"
    by simp_all
  have ids: "map room_id (rooms d') = map room_id (rooms d)"
    unfolding rs by (induction "rooms d") auto
  have hosts: "map room_host (rooms d') = map room_host (rooms d)"
    unfolding rs by (induction "rooms d") auto
  from f d' have rest: "room_participants d' = room_participants d"
      "messages d' = messages d" "users d' = users d"
    by simp_all
  then have parts: "\<forall>k. participants_all d' k = participants_all d k"
    by (simp add: participants_all_def)
  from t rs have "\<exists>t \<in> set (topics d'). topic_name t = POST request ''topic''
      \<and> rooms d' = map (?upd t) (rooms d)"
    by blast
  with ids hosts rest parts show ?thesis by blast
qed

theorem updateRoom_frame_witness:
  "updateRoom demo_schema demo_db
       (demo_request (AuthUser 1) ''POST'' []
          [(''topic'', ''Python''), (''name'', ''Chess Masters''), (''description'', ''Daily'')]) 1
     = (Inr (Redirect ''home'' None),
        demo_db\<lparr>rooms := [\<lparr>room_id = 1, room_host = 1, room_topic = 2,
                   room_name = Some ''Chess Masters'', room_description = Some ''Daily''\<rparr>,
                 \<lparr>room_id = 2, room_host = 2, room_topic = 2,
                   room_name = Some ''Django help'', room_description = None\<rparr>]\<rparr>)
   \<and> map room_host (rooms (demo_db\<lparr>rooms := [\<lparr>room_id = 1, room_host = 1, room_topic = 2,
                   room_name = Some ''Chess Masters'', room_description = Some ''Daily''\<rparr>,
                 \<lparr>room_id = 2, room_host = 2, room_topic = 2,
                   room_name = Some ''Django help'', room_description = None\<rparr>]\<rparr>))
       = map room_host (rooms demo_db)
   \<and> room_participants (demo_db\<lparr>rooms := [\<lparr>room_id = 1, room_host = 1, room_topic = 2,
                   room_name = Some ''Chess Masters'', room_description = Some ''Daily''\<rparr>,
                 \<lparr>room_id = 2, room_host = 2, room_topic = 2,
                   room_name = Some ''Django help'', room_description = None\<rparr>]\<rparr>)
       = [(1, 2)]"
proof -
  let ?rq = "demo_request (AuthUser 1) ''POST'' []
          [(''topic'', ''Python''), (''name'', ''Chess Masters''), (''description'', ''Daily'')]"
  let ?d = "demo_db\<lparr>rooms := [\<lparr>room_id = 1, room_host = 1, room_topic = 2,
                   room_name = Some ''Chess Masters'', room_description = Some ''Daily''\<rparr>,
                 \<lparr>room_id = 2, room_host = 2, room_topic = 2,
                   room_name = Some ''Django help'', room_description = None\<rparr>]\<rparr>"
  have e: "updateRoom demo_schema demo_db ?rq 1 = (Inr (Redirect ''home'' None), ?d)"
    by code_simp
  have p: "room_participants demo_db = [(1, 2)]"
    by (simp add: demo_db_def)
  note t = updateRoom_frame [OF e]
  from t have a: "map room_host (rooms ?d) = map room_host (rooms demo_db)"
    by blast
  from t p have b: "room_participants ?d = [(1, 2)]"
    by simp
  from e a b show ?thesis
    by (simp only: simp_thms)
qed

section \<open>Login\<close>

text \<open>
  C9. When an anonymous request posts an email that no user has, the failed lookup only
  records the message "User does not exist."; the handler goes on to call the
  authentication backend with the submitted credentials, and the outcome is the
  backend's: a user is logged in and redirected, no user adds the message "Email or
  Password does not match" to the first one. This holds for every backend and every
  case mapping.
\<close>

theorem loginPage_unknown_email:
  assumes "req_user request = AnonymousUser" and "req_method request = ''POST''"
    and "POST request ''email'' = Some e"
    and "str_lower e \<notin> user_email ` set (users d)"
  shows "loginPage str_lower authenticate d s request =
     (case authenticate d (str_lower e) (POST request ''password'') of
        Some user \<Rightarrow>
          (Inr (Redirect ''home'' None),
           login (messages_error s ''User does not exist.'') user)
      | None \<Rightarrow>
          (Inr (Render ''base/login_register.html'' (LoginContext ''login'')),
           messages_error (messages_error s ''User does not exist.'')
             ''Email or Password does not match''))"
proof -
  from assms(4) have "get (\<lambda>u. user_email u = str_lower e) (users d) = Inl DoesNotExist"
    by (rule get_missing)
  with assms(1-3) show ?thesis
    by (simp add: loginPage_def Let_def split: option.splits)
qed

theorem loginPage_unknown_email_witness:
  "req_user (demo_request AnonymousUser ''POST'' []
       [(''email'', ''Carol@x.com''), (''password'', ''secret'')]) = AnonymousUser
   \<and> req_method (demo_request AnonymousUser ''POST'' []
       [(''email'', ''Carol@x.com''), (''password'', ''secret'')]) = ''POST''
   \<and> POST (demo_request AnonymousUser ''POST'' []
       [(''email'', ''Carol@x.com''), (''password'', ''secret'')]) ''email'' = Some ''Carol@x.com''
   \<and> lower ''Carol@x.com'' \<notin> user_email ` set (users demo_db)
   \<and> loginPage lower demo_authenticate demo_db demo_session
        (demo_request AnonymousUser ''POST'' []
           [(''email'', ''Carol@x.com''), (''password'', ''secret'')])
       = (Inr (Render ''base/login_register.html'' (LoginContext ''login'')),
          \<lparr>session_user = AnonymousUser,
           session_messages = [''User does not exist.'', ''Email or Password does not match'']\<rparr>)"
proof -
  let ?rq = "demo_request AnonymousUser ''POST'' []
       [(''email'', ''Carol@x.com''), (''password'', ''secret'')]"
  have h1: "req_user ?rq = AnonymousUser" and h2: "req_method ?rq = ''POST''"
    and h3: "POST ?rq ''email'' = Some ''Carol@x.com''"
    by (simp_all add: demo_request_def)
  have h4: "lower ''Carol@x.com'' \<notin> user_email ` set (users demo_db)"
    by code_simp
  have a: "demo_authenticate demo_db (lower ''Carol@x.com'') (POST ?rq ''password'') = None"
    by code_simp
  have m: "messages_error (messages_error demo_session ''User does not exist.'')
        ''Email or Password does not match''
      = \<lparr>session_user = AnonymousUser,
         session_messages = [''User does not exist.'', ''Email or Password does not match'']\<rparr>"
    by (simp add: messages_error_def demo_session_def)
  from loginPage_unknown_email [where str_lower = lower and authenticate = demo_authenticate
      and s = demo_session, OF h1 h2 h3 h4] a m
  have r: "loginPage lower demo_authenticate demo_db demo_session ?rq
      = (Inr (Render ''base/login_register.html'' (LoginContext ''login'')),
         \<lparr>session_user = AnonymousUser,
          session_messages = [''User does not exist.'', ''Email or Password does not match'']\<rparr>)"
    by simp
  from h1 h2 h3 h4 r show ?thesis
    by (simp only: simp_thms)
qed

section \<open>Registration\<close>






section \<open>Posting in a room\<close>

lemma count_participants_all:
  "count_list (participants_all d pk) u = count_list (room_participants d) (pk, u)"
proof -
  have "count_list (map snd (filter (\<lambda>p. fst p = pk) ps)) u = count_list ps (pk, u)"
    for ps :: "(nat \<times> nat) list"
    by (induction ps) auto
  then show ?thesis by (simp add: participants_all_def)
qed

lemma participants_add_count:
  "count_list (room_participants d) (pk, u) \<le> 1 \<Longrightarrow>
     count_list (room_participants (participants_add d pk u)) (pk, u) = 1"
proof (cases "(pk, u) \<in> set (room_participants d)")
  case True
  assume "count_list (room_participants d) (pk, u) \<le> 1"
  moreover from True have "count_list (room_participants d) (pk, u) \<noteq> 0"
    by (simp add: count_list_0_iff)
  ultimately show ?thesis using True by (simp add: participants_add_def)
next
  case False
  then have "count_list (room_participants d) (pk, u) = 0"
    by (simp add: count_list_0_iff)
  with False show ?thesis by (simp add: participants_add_def)
qed

lemma participants_add_set:
  "set (participants_all (participants_add d pk u) pk) = insert u (set (participants_all d pk))"
  by (force simp: participants_add_def participants_all_def)

lemma room_post:
  assumes "get (\<lambda>x. room_id x = pk) (rooms d) = Inr r"
    and "req_user request = AuthUser u" and "req_method request = ''POST''"
    and "message_valid sch \<lparr>message_id = fresh (map message_id (messages d)),
           message_user = u, message_room = pk, message_body = POST request ''body''\<rparr>"
  shows "room sch d request pk =
     (Inr (Redirect ''room'' (Some pk)),
      participants_add
        (d\<lparr>messages := messages d @ [\<lparr>message_id = fresh (map message_id (messages d)),
             message_user = u, message_room = pk, message_body = POST request ''body''\<rparr>]\<rparr>)
        pk u)"
proof -
  from get_Inr [OF assms(1)] have "room_id r = pk" by simp
  with assms show ?thesis
    by (simp add: room_def Message_create_def Let_def)
qed

lemma room_posts_count:
  assumes "get (\<lambda>x. room_id x = pk) (rooms d) = Inr r"
    and "\<forall>q \<in> set requests. req_user q = AuthUser u \<and> req_method q = ''POST''
           \<and> (\<forall>i. message_valid sch \<lparr>message_id = i, message_user = u,
                   message_room = pk, message_body = POST q ''body''\<rparr>)"
    and "count_list (room_participants d) (pk, u) \<le> 1"
  shows "count_list (room_participants (room_posts sch d requests pk)) (pk, u)
           = (if requests = [] then count_list (room_participants d) (pk, u) else 1)
     \<and> length (messages (room_posts sch d requests pk))
           = length (messages d) + length requests"
  using assms
proof (induction requests arbitrary: d)
  case Nil
  then show ?case by simp
next
  case (Cons q qs)
  let ?m = "\<lparr>message_id = fresh (map message_id (messages d)),
             message_user = u, message_room = pk, message_body = POST q ''body''\<rparr>"
  let ?d1 = "participants_add (d\<lparr>messages := messages d @ [?m]\<rparr>) pk u"
  from Cons.prems(2) have q: "req_user q = AuthUser u" "req_method q = ''POST''"
      "message_valid sch ?m"
    by simp_all
  from room_post [OF Cons.prems(1) q] have step: "snd (room sch d q pk) = ?d1"
    by simp
  have rooms1: "rooms ?d1 = rooms d"
    by (simp add: participants_add_def)
  have msgs1: "length (messages ?d1) = Suc (length (messages d))"
    by (simp add: participants_add_def)
  from Cons.prems(3) have c1: "count_list (room_participants ?d1) (pk, u) = 1"
    using participants_add_count [of "d\<lparr>messages := messages d @ [?m]\<rparr>" pk u] by simp
  have g1: "get (\<lambda>x. room_id x = pk) (rooms ?d1) = Inr r"
    using Cons.prems(1) rooms1 by simp
  have rest: "\<forall>q \<in> set qs. req_user q = AuthUser u \<and> req_method q = ''POST''
           \<and> (\<forall>i. message_valid sch \<lparr>message_id = i, message_user = u,
                   message_room = pk, message_body = POST q ''body''\<rparr>)"
    using Cons.prems(2) by simp
  from Cons.IH [OF g1 rest] c1
  have "count_list (room_participants (room_posts sch ?d1 qs pk)) (pk, u) = 1
     \<and> length (messages (room_posts sch ?d1 qs pk)) = length (messages ?d1) + length qs"
    by simp
  with step msgs1 show ?case by simp
qed

text \<open>
  C3. A POST to the room handler by an authenticated user, with a message the store
  accepts, appends the message with the submitted body, the room and the user, adds the
  user to the room's participants and redirects to the room. The addition is
  idempotent: for a user who is a participant already the relation is unchanged, and a
  user who was not a participant is in the room's participants exactly once after any
  number of posts.
\<close>

theorem room_post_adds_participant_once:
  assumes "r \<in> set (rooms d)" and "keys_unique d"
    and "req_user request = AuthUser u" and "req_method request = ''POST''"
    and "message_valid sch \<lparr>message_id = fresh (map message_id (messages d)),
           message_user = u, message_room = room_id r, message_body = POST request ''body''\<rparr>"
  shows "room sch d request (room_id r) =
       (Inr (Redirect ''room'' (Some (room_id r))),
        participants_add
          (d\<lparr>messages := messages d @ [\<lparr>message_id = fresh (map message_id (messages d)),
               message_user = u, message_room = room_id r,
               message_body = POST request ''body''\<rparr>]\<rparr>)
          (room_id r) u)
     \<and> set (participants_all (snd (room sch d request (room_id r))) (room_id r))
         = insert u (set (participants_all d (room_id r)))
     \<and> (u \<in> set (participants_all d (room_id r)) \<longrightarrow>
           room_participants (snd (room sch d request (room_id r))) = room_participants d)
     \<and> (\<forall>requests.
           u \<notin> set (participants_all d (room_id r)) \<and> requests \<noteq> []
           \<and> (\<forall>q \<in> set requests. req_user q = AuthUser u \<and> req_method q = ''POST''
                  \<and> (\<forall>i. message_valid sch \<lparr>message_id = i, message_user = u,
                          message_room = room_id r, message_body = POST q ''body''\<rparr>))
           \<longrightarrow> count_list (participants_all (room_posts sch d requests (room_id r)) (room_id r)) u
                 = 1)"
proof -
  let ?pk = "room_id r"
  let ?m = "\<lparr>message_id = fresh (map message_id (messages d)),
             message_user = u, message_room = ?pk, message_body = POST request ''body''\<rparr>"
  let ?d1 = "d\<lparr>messages := messages d @ [?m]\<rparr>"
  from assms(1,2) have g: "get (\<lambda>x. room_id x = ?pk) (rooms d) = Inr r"
    by (simp add: keys_unique_def get_by_key)
  note p = room_post [OF g assms(3,4,5)]
  have s: "snd (room sch d request ?pk) = participants_add ?d1 ?pk u"
    using p by simp
  have a: "set (participants_all (snd (room sch d request ?pk)) ?pk)
      = insert u (set (participants_all d ?pk))"
    unfolding s participants_add_set by (simp add: participants_all_def)
  have b: "room_participants (snd (room sch d request ?pk)) = room_participants d"
    if "u \<in> set (participants_all d ?pk)"
  proof -
    from that have "(?pk, u) \<in> set (room_participants ?d1)"
      by (auto simp: participants_all_def)
    then show ?thesis unfolding s by (simp add: participants_add_def)
  qed
  have c: "count_list (participants_all (room_posts sch d requests ?pk) ?pk) u = 1"
    if n: "u \<notin> set (participants_all d ?pk)" and ne: "requests \<noteq> []"
      and all: "\<forall>q \<in> set requests. req_user q = AuthUser u \<and> req_method q = ''POST''
                  \<and> (\<forall>i. message_valid sch \<lparr>message_id = i, message_user = u,
                          message_room = ?pk, message_body = POST q ''body''\<rparr>)"
    for requests
  proof -
    from n have "count_list (participants_all d ?pk) u = 0"
      by (simp add: count_list_0_iff)
    then have "count_list (room_participants d) (?pk, u) \<le> 1"
      by (simp add: count_participants_all)
    from room_posts_count [OF g all this] ne show ?thesis
      by (simp add: count_participants_all)
  qed
  from p a b c show ?thesis by blast
qed

theorem room_post_adds_participant_once_witness:
  "\<lparr>room_id = 1, room_host = 1, room_topic = 1, room_name = Some ''Chess Club'',
     room_description = Some ''Weekly games''\<rparr> \<in> set (rooms demo_db)
   \<and> keys_unique demo_db
   \<and> room demo_schema demo_db
        (demo_request (AuthUser 1) ''POST'' [] [(''body'', ''hello'')]) 1
       = (Inr (Redirect ''room'' (Some 1)),
          demo_db\<lparr>messages := messages demo_db
                      @ [\<lparr>message_id = 3, message_user = 1, message_room = 1,
                           message_body = Some ''hello''\<rparr>],
                  room_participants := [(1, 2), (1, 1)]\<rparr>)
   \<and> count_list (participants_all
         (room_posts demo_schema demo_db
            [demo_request (AuthUser 1) ''POST'' [] [(''body'', ''hello'')],
             demo_request (AuthUser 1) ''POST'' [] [(''body'', ''again'')]] 1) 1) 1 = 1
   \<and> length (messages (room_posts demo_schema demo_db
            [demo_request (AuthUser 1) ''POST'' [] [(''body'', ''hello'')],
             demo_request (AuthUser 1) ''POST'' [] [(''body'', ''again'')]] 1)) = 4"
proof -
  let ?r = "\<lparr>room_id = 1, room_host = 1, room_topic = 1, room_name = Some ''Chess Club'',
     room_description = Some ''Weekly games''\<rparr>"
  let ?q1 = "demo_request (AuthUser 1) ''POST'' [] [(''body'', ''hello'')]"
  let ?q2 = "demo_request (AuthUser 1) ''POST'' [] [(''body'', ''again'')]"
  have h1: "?r \<in> set (rooms demo_db)"
    by (simp add: demo_db_def)
  have h2: "keys_unique demo_db"
    by (simp add: keys_unique_def demo_db_def)
  have h3: "req_user ?q1 = AuthUser 1" and h4: "req_method ?q1 = ''POST''"
    by (simp_all add: demo_request_def)
  have h5: "message_valid demo_schema
      \<lparr>message_id = fresh (map message_id (messages demo_db)), message_user = 1,
        message_room = room_id ?r, message_body = POST ?q1 ''body''\<rparr>"
    by (simp add: demo_schema_def demo_request_def)
  note t = room_post_adds_participant_once [OF h1 h2 h3 h4 h5]
  have e: "room demo_schema demo_db ?q1 1
       = (Inr (Redirect ''room'' (Some 1)),
          demo_db\<lparr>messages := messages demo_db
                      @ [\<lparr>message_id = 3, message_user = 1, message_room = 1,
                           message_body = Some ''hello''\<rparr>],
                  room_participants := [(1, 2), (1, 1)]\<rparr>)"
    by code_simp
  have n: "1 \<notin> set (participants_all demo_db (room_id ?r))"
    by (simp add: participants_all_def demo_db_def)
  have a: "\<forall>q \<in> set [?q1, ?q2]. req_user q = AuthUser 1 \<and> req_method q = ''POST''
      \<and> (\<forall>i. message_valid demo_schema \<lparr>message_id = i, message_user = 1,
              message_room = room_id ?r, message_body = POST q ''body''\<rparr>)"
    by (simp add: demo_schema_def demo_request_def)
  from t n a have c: "count_list (participants_all
      (room_posts demo_schema demo_db [?q1, ?q2] (room_id ?r)) (room_id ?r)) 1 = 1"
    by blast
  then have c': "count_list (participants_all
      (room_posts demo_schema demo_db [?q1, ?q2] 1) 1) 1 = 1"
    by simp
  have l: "length (messages (room_posts demo_schema demo_db [?q1, ?q2] 1)) = 4"
    by code_simp
  from h1 h2 e c' l show ?thesis
    by (simp only: simp_thms)
qed

section \<open>Topics by name\<close>

lemma Topic_get_or_create_existing:
  assumes "topic_names_distinct d" and "t \<in> set (topics d)"
  shows "Topic_get_or_create sch d (topic_name t) = Inr (t, False, d)"
proof -
  from assms have "get (\<lambda>x. topic_name x = topic_name t) (topics d) = Inr t"
    by (simp add: topic_names_distinct_def get_by_key)
  then show ?thesis by (simp add: Topic_get_or_create_def)
qed

lemma Topic_get_or_create_new:
  assumes "name \<notin> topic_name ` set (topics d)"
  shows "Topic_get_or_create sch d name =
     (if topic_valid sch \<lparr>topic_id = fresh (map topic_id (topics d)), topic_name = name\<rparr>
      then Inr (\<lparr>topic_id = fresh (map topic_id (topics d)), topic_name = name\<rparr>, True,
                d\<lparr>topics := topics d
                     @ [\<lparr>topic_id = fresh (map topic_id (topics d)), topic_name = name\<rparr>]\<rparr>)
      else Inl IntegrityError)"
proof -
  from assms have "get (\<lambda>x. topic_name x = name) (topics d) = Inl DoesNotExist"
    by (rule get_missing)
  then show ?thesis by (simp add: Topic_get_or_create_def Let_def)
qed

lemma createRoom_topics:
  assumes "req_user request = AuthUser u" and "req_method request = ''POST''"
  shows "topics (snd (createRoom sch d request)) =
     (case Topic_get_or_create sch d (POST request ''topic'') of
        Inl e \<Rightarrow> topics d
      | Inr (t, created, d1) \<Rightarrow> topics d1)"
  using assms
  by (auto simp: createRoom_def Let_def Room_create_def split: sum.splits)

lemma updateRoom_topics:
  assumes "req_user request = AuthUser u" and "req_method request = ''POST''"
    and "get (\<lambda>x. room_id x = pk) (rooms d) = Inr r" and "room_host r = u"
  shows "topics (snd (updateRoom sch d request pk)) =
     (case Topic_get_or_create sch d (POST request ''topic'') of
        Inl e \<Rightarrow> topics d
      | Inr (t, created, d1) \<Rightarrow> topics d1)"
  using assms
  by (auto simp: updateRoom_def Let_def Room_save_def split: sum.splits)

lemma createRoom_success:
  assumes "createRoom sch d request = (Inr (Redirect ''home'' None), d')"
  shows "\<exists>u t created d1.
           req_user request = AuthUser u
           \<and> Topic_get_or_create sch d (POST request ''topic'') = Inr (t, created, d1)
           \<and> d' = d1\<lparr>rooms := rooms d1
                 @ [\<lparr>room_id = fresh (map room_id (rooms d1)), room_host = u,
                      room_topic = topic_id t, room_name = POST request ''name'',
                      room_description = POST request ''description''\<rparr>]\<rparr>"
proof (cases "req_user request")
  case AnonymousUser
  with assms show ?thesis by (simp add: createRoom_def)
next
  case (AuthUser u)
  from assms AuthUser have p: "req_method request = ''POST''"
    by (auto simp: createRoom_def split: if_splits)
  show ?thesis
  proof (cases "Topic_get_or_create sch d (POST request ''topic'')")
    case (Inl e)
    with assms AuthUser p show ?thesis by (simp add: createRoom_def)
  next
    case (Inr res)
    obtain t created d1 where res: "res = (t, created, d1)"
      by (cases res) auto
    from assms AuthUser p Inr res
    have "d' = d1\<lparr>rooms := rooms d1
                 @ [\<lparr>room_id = fresh (map room_id (rooms d1)), room_host = u,
                      room_topic = topic_id t, room_name = POST request ''name'',
                      room_description = POST request ''description''\<rparr>]\<rparr>"
      by (auto simp: createRoom_def Let_def Room_create_def split: if_splits)
    with AuthUser Inr res show ?thesis by blast
  qed
qed

lemma Topic_get_or_create_distinct:
  assumes "topic_names_distinct d"
  shows "topic_names_distinct
     (d\<lparr>topics := (case Topic_get_or_create sch d name of
                       Inl e \<Rightarrow> topics d
                     | Inr (t, created, d1) \<Rightarrow> topics d1)\<rparr>)"
proof (cases "name \<in> topic_name ` set (topics d)")
  case True
  then obtain t where "t \<in> set (topics d)" "topic_name t = name" by auto
  with Topic_get_or_create_existing [OF assms, of t sch] assms show ?thesis
    by (simp add: topic_names_distinct_def)
next
  case False
  with Topic_get_or_create_new [OF False, of sch] assms show ?thesis
    by (simp add: topic_names_distinct_def)
qed

lemma createRoom_result:
  assumes "req_user request = AuthUser u" and "req_method request = ''POST''"
    and "Topic_get_or_create sch d (POST request ''topic'') = Inr (t, created, d1)"
    and "rooms d1 = rooms d"
    and "room_valid sch \<lparr>room_id = fresh (map room_id (rooms d)), room_host = u,
           room_topic = topic_id t, room_name = POST request ''name'',
           room_description = POST request ''description''\<rparr>"
  shows "createRoom sch d request =
     (Inr (Redirect ''home'' None),
      d1\<lparr>rooms := rooms d @ [\<lparr>room_id = fresh (map room_id (rooms d)), room_host = u,
           room_topic = topic_id t, room_name = POST request ''name'',
           room_description = POST request ''description''\<rparr>]\<rparr>)"
  using assms by (simp add: createRoom_def Room_create_def Let_def)

lemma updateRoom_result:
  assumes "req_user request = AuthUser u" and "req_method request = ''POST''"
    and "get (\<lambda>x. room_id x = pk) (rooms d) = Inr r" and "room_host r = u"
    and "Topic_get_or_create sch d (POST request ''topic'') = Inr (t, created, d1)"
    and "rooms d1 = rooms d"
    and "room_valid sch (r\<lparr>room_name := POST request ''name'', room_topic := topic_id t,
           room_description := POST request ''description''\<rparr>)"
  shows "updateRoom sch d request pk =
     (Inr (Redirect ''home'' None),
      d1\<lparr>rooms := map (\<lambda>x. if room_id x = pk
             then r\<lparr>room_name := POST request ''name'', room_topic := topic_id t,
                    room_description := POST request ''description''\<rparr>
             else x) (rooms d)\<rparr>)"
proof -
  from get_Inr [OF assms(3)] have "room_id r = pk" by simp
  with assms show ?thesis
    by (simp add: updateRoom_def Room_save_def Let_def)
qed

text \<open>
  C4. In a store whose topic names are distinct, a POST to createRoom or to updateRoom
  (by the room's host) with the name of an existing topic leaves the topics table as it
  is, and the room that is created or updated refers to that topic: when the store
  accepts the room's row, the handler redirects to the home page and the store is the
  old one with the new room appended, or with the room's row replaced by the one that
  has the submitted name and description and that topic. With a name that no topic has,
  and which the store accepts, the topics table gains exactly one row, the new topic
  with that name, and the room refers to it. Either way the topic names stay distinct.
\<close>

theorem topic_reused_or_created_once:
  assumes "topic_names_distinct d"
    and "req_user request = AuthUser u" and "req_method request = ''POST''"
  shows "(\<forall>t \<in> set (topics d). topic_name t = POST request ''topic'' \<longrightarrow>
            topics (snd (createRoom sch d request)) = topics d
            \<and> (\<forall>d'. createRoom sch d request = (Inr (Redirect ''home'' None), d') \<longrightarrow>
                  (\<exists>r'. rooms d' = rooms d @ [r'] \<and> room_topic r' = topic_id t))
            \<and> (room_valid sch \<lparr>room_id = fresh (map room_id (rooms d)), room_host = u,
                   room_topic = topic_id t, room_name = POST request ''name'',
                   room_description = POST request ''description''\<rparr> \<longrightarrow>
                  createRoom sch d request =
                    (Inr (Redirect ''home'' None),
                     d\<lparr>rooms := rooms d
                          @ [\<lparr>room_id = fresh (map room_id (rooms d)), room_host = u,
                               room_topic = topic_id t, room_name = POST request ''name'',
                               room_description = POST request ''description''\<rparr>]\<rparr>))
            \<and> (\<forall>pk r. get (\<lambda>x. room_id x = pk) (rooms d) = Inr r \<and> room_host r = u \<longrightarrow>
                  topics (snd (updateRoom sch d request pk)) = topics d
                  \<and> (\<forall>d'. updateRoom sch d request pk = (Inr (Redirect ''home'' None), d') \<longrightarrow>
                        (\<forall>r' \<in> set (rooms d'). room_id r' = pk \<longrightarrow> room_topic r' = topic_id t))
                  \<and> (room_valid sch (r\<lparr>room_name := POST request ''name'',
                         room_topic := topic_id t,
                         room_description := POST request ''description''\<rparr>) \<longrightarrow>
                        updateRoom sch d request pk =
                          (Inr (Redirect ''home'' None),
                           d\<lparr>rooms := map (\<lambda>x. if room_id x = pk
                                 then r\<lparr>room_name := POST request ''name'',
                                        room_topic := topic_id t,
                                        room_description := POST request ''description''\<rparr>
                                 else x) (rooms d)\<rparr>))))
     \<and> (POST request ''topic'' \<notin> topic_name ` set (topics d)
          \<and> topic_valid sch \<lparr>topic_id = fresh (map topic_id (topics d)),
                              topic_name = POST request ''topic''\<rparr> \<longrightarrow>
            topics (snd (createRoom sch d request))
              = topics d @ [\<lparr>topic_id = fresh (map topic_id (topics d)),
                              topic_name = POST request ''topic''\<rparr>]
            \<and> (room_valid sch \<lparr>room_id = fresh (map room_id (rooms d)), room_host = u,
                   room_topic = fresh (map topic_id (topics d)),
                   room_name = POST request ''name'',
                   room_description = POST request ''description''\<rparr> \<longrightarrow>
                  createRoom sch d request =
                    (Inr (Redirect ''home'' None),
                     d\<lparr>topics := topics d @ [\<lparr>topic_id = fresh (map topic_id (topics d)),
                                                topic_name = POST request ''topic''\<rparr>],
                       rooms := rooms d
                          @ [\<lparr>room_id = fresh (map room_id (rooms d)), room_host = u,
                               room_topic = fresh (map topic_id (topics d)),
                               room_name = POST request ''name'',
                               room_description = POST request ''description''\<rparr>]\<rparr>))
            \<and> (\<forall>pk r. get (\<lambda>x. room_id x = pk) (rooms d) = Inr r \<and> room_host r = u \<longrightarrow>
                  topics (snd (updateRoom sch d request pk))
                    = topics d @ [\<lparr>topic_id = fresh (map topic_id (topics d)),
                                    topic_name = POST request ''topic''\<rparr>]
                  \<and> (room_valid sch (r\<lparr>room_name := POST request ''name'',
                         room_topic := fresh (map topic_id (topics d)),
                         room_description := POST request ''description''\<rparr>) \<longrightarrow>
                        updateRoom sch d request pk =
                          (Inr (Redirect ''home'' None),
                           d\<lparr>topics := topics d
                                  @ [\<lparr>topic_id = fresh (map topic_id (topics d)),
                                       topic_name = POST request ''topic''\<rparr>],
                             rooms := map (\<lambda>x. if room_id x = pk
                                 then r\<lparr>room_name := POST request ''name'',
                                        room_topic := fresh (map topic_id (topics d)),
                                        room_description := POST request ''description''\<rparr>
                                 else x) (rooms d)\<rparr>))))
     \<and> topic_names_distinct (snd (createRoom sch d request))
     \<and> (\<forall>pk r. get (\<lambda>x. room_id x = pk) (rooms d) = Inr r \<and> room_host r = u \<longrightarrow>
           topic_names_distinct (snd (updateRoom sch d request pk)))"
proof -
  let ?name = "POST request ''topic''"
  let ?new = "\<lparr>topic_id = fresh (map topic_id (topics d)), topic_name = ?name\<rparr>"
  let ?room = "\<lambda>k. \<lparr>room_id = fresh (map room_id (rooms d)), room_host = u,
      room_topic = k, room_name = POST request ''name'',
      room_description = POST request ''description''\<rparr>"
  let ?upd = "\<lambda>r k. r\<lparr>room_name := POST request ''name'', room_topic := k,
      room_description := POST request ''description''\<rparr>"
  note ct = createRoom_topics [OF assms(2,3), of sch d]
  have ut: "topics (snd (updateRoom sch d request pk)) =
      (case Topic_get_or_create sch d ?name of
         Inl e \<Rightarrow> topics d | Inr (t, created, d1) \<Rightarrow> topics d1)"
    if "get (\<lambda>x. room_id x = pk) (rooms d) = Inr r \<and> room_host r = u" for pk r
    using updateRoom_topics [OF assms(2,3), of pk d r sch] that by simp
  have existing: "topics (snd (createRoom sch d request)) = topics d
      \<and> (\<forall>d'. createRoom sch d request = (Inr (Redirect ''home'' None), d') \<longrightarrow>
            (\<exists>r'. rooms d' = rooms d @ [r'] \<and> room_topic r' = topic_id t))
      \<and> (room_valid sch (?room (topic_id t)) \<longrightarrow>
            createRoom sch d request =
              (Inr (Redirect ''home'' None), d\<lparr>rooms := rooms d @ [?room (topic_id t)]\<rparr>))
      \<and> (\<forall>pk r. get (\<lambda>x. room_id x = pk) (rooms d) = Inr r \<and> room_host r = u \<longrightarrow>
            topics (snd (updateRoom sch d request pk)) = topics d
            \<and> (\<forall>d'. updateRoom sch d request pk = (Inr (Redirect ''home'' None), d') \<longrightarrow>
                  (\<forall>r' \<in> set (rooms d'). room_id r' = pk \<longrightarrow> room_topic r' = topic_id t))
            \<and> (room_valid sch (?upd r (topic_id t)) \<longrightarrow>
                  updateRoom sch d request pk =
                    (Inr (Redirect ''home'' None),
                     d\<lparr>rooms := map (\<lambda>x. if room_id x = pk then ?upd r (topic_id t) else x)
                                   (rooms d)\<rparr>)))"
    if t: "t \<in> set (topics d)" and n: "topic_name t = ?name" for t
  proof -
    from Topic_get_or_create_existing [OF assms(1) t, of sch] n
    have g: "Topic_get_or_create sch d ?name = Inr (t, False, d)"
      by simp
    have 1: "topics (snd (createRoom sch d request)) = topics d"
      using ct g by simp
    have 2: "\<exists>r'. rooms d' = rooms d @ [r'] \<and> room_topic r' = topic_id t"
      if "createRoom sch d request = (Inr (Redirect ''home'' None), d')" for d'
      using createRoom_success [OF that] g by auto
    have 3: "topics (snd (updateRoom sch d request pk)) = topics d"
      if "get (\<lambda>x. room_id x = pk) (rooms d) = Inr r \<and> room_host r = u" for pk r
      using ut [OF that] g by simp
    have 4: "\<forall>r' \<in> set (rooms d'). room_id r' = pk \<longrightarrow> room_topic r' = topic_id t"
      if "updateRoom sch d request pk = (Inr (Redirect ''home'' None), d')" for pk d'
      using updateRoom_success [OF that] g by auto
    have 5: "createRoom sch d request =
        (Inr (Redirect ''home'' None), d\<lparr>rooms := rooms d @ [?room (topic_id t)]\<rparr>)"
      if "room_valid sch (?room (topic_id t))"
      using createRoom_result [OF assms(2,3) g _ that] by simp
    have 6: "updateRoom sch d request pk =
        (Inr (Redirect ''home'' None),
         d\<lparr>rooms := map (\<lambda>x. if room_id x = pk then ?upd r (topic_id t) else x) (rooms d)\<rparr>)"
      if "get (\<lambda>x. room_id x = pk) (rooms d) = Inr r \<and> room_host r = u"
        and "room_valid sch (?upd r (topic_id t))" for pk r
      using updateRoom_result [OF assms(2,3) _ _ g _ that(2)] that(1) by simp
    from 1 2 3 4 5 6 show ?thesis by blast
  qed
  have fresh_name: "topics (snd (createRoom sch d request)) = topics d @ [?new]
      \<and> (room_valid sch (?room (fresh (map topic_id (topics d)))) \<longrightarrow>
            createRoom sch d request =
              (Inr (Redirect ''home'' None),
               d\<lparr>topics := topics d @ [?new],
                 rooms := rooms d @ [?room (fresh (map topic_id (topics d)))]\<rparr>))
      \<and> (\<forall>pk r. get (\<lambda>x. room_id x = pk) (rooms d) = Inr r \<and> room_host r = u \<longrightarrow>
            topics (snd (updateRoom sch d request pk)) = topics d @ [?new]
            \<and> (room_valid sch (?upd r (fresh (map topic_id (topics d)))) \<longrightarrow>
                  updateRoom sch d request pk =
                    (Inr (Redirect ''home'' None),
                     d\<lparr>topics := topics d @ [?new],
                       rooms := map (\<lambda>x. if room_id x = pk
                           then ?upd r (fresh (map topic_id (topics d))) else x) (rooms d)\<rparr>)))"
    if "?name \<notin> topic_name ` set (topics d)" and "topic_valid sch ?new"
  proof -
    from Topic_get_or_create_new [OF that(1), of sch] that(2)
    have g: "Topic_get_or_create sch d ?name
        = Inr (?new, True, d\<lparr>topics := topics d @ [?new]\<rparr>)"
      by simp
    have 1: "topics (snd (createRoom sch d request)) = topics d @ [?new]"
      using ct g by simp
    have 2: "topics (snd (updateRoom sch d request pk)) = topics d @ [?new]"
      if "get (\<lambda>x. room_id x = pk) (rooms d) = Inr r \<and> room_host r = u" for pk r
      using ut [OF that] g by simp
    have 3: "createRoom sch d request =
        (Inr (Redirect ''home'' None),
         d\<lparr>topics := topics d @ [?new],
           rooms := rooms d @ [?room (fresh (map topic_id (topics d)))]\<rparr>)"
      if "room_valid sch (?room (fresh (map topic_id (topics d))))"
      using createRoom_result [OF assms(2,3) g] that by simp
    have 4: "updateRoom sch d request pk =
        (Inr (Redirect ''home'' None),
         d\<lparr>topics := topics d @ [?new],
           rooms := map (\<lambda>x. if room_id x = pk
               then ?upd r (fresh (map topic_id (topics d))) else x) (rooms d)\<rparr>)"
      if "get (\<lambda>x. room_id x = pk) (rooms d) = Inr r \<and> room_host r = u"
        and "room_valid sch (?upd r (fresh (map topic_id (topics d))))" for pk r
      using updateRoom_result [OF assms(2,3) _ _ g] that by simp
    from 1 2 3 4 show ?thesis by blast
  qed
  note dist = Topic_get_or_create_distinct [OF assms(1), of sch ?name]
  have d1: "topic_names_distinct (snd (createRoom sch d request))"
    using dist ct by (simp add: topic_names_distinct_def)
  have d2: "topic_names_distinct (snd (updateRoom sch d request pk))"
    if "get (\<lambda>x. room_id x = pk) (rooms d) = Inr r \<and> room_host r = u" for pk r
    using dist ut [OF that] by (simp add: topic_names_distinct_def)
  from existing fresh_name d1 d2 show ?thesis by blast
qed

theorem topic_reused_or_created_once_witness:
  "topic_names_distinct demo_db
   \<and> createRoom demo_schema demo_db
        (demo_request (AuthUser 1) ''POST'' []
           [(''topic'', ''Games''), (''name'', ''Go Club''), (''description'', ''Weekly'')])
       = (Inr (Redirect ''home'' None),
          demo_db\<lparr>rooms := rooms demo_db
                     @ [\<lparr>room_id = 3, room_host = 1, room_topic = 1,
                          room_name = Some ''Go Club'', room_description = Some ''Weekly''\<rparr>]\<rparr>)
   \<and> updateRoom demo_schema demo_db
        (demo_request (AuthUser 1) ''POST'' []
           [(''topic'', ''Python''), (''name'', ''Chess Masters''), (''description'', ''Daily'')]) 1
       = (Inr (Redirect ''home'' None),
          demo_db\<lparr>rooms := [\<lparr>room_id = 1, room_host = 1, room_topic = 2,
                       room_name = Some ''Chess Masters'', room_description = Some ''Daily''\<rparr>,
                     \<lparr>room_id = 2, room_host = 2, room_topic = 2,
                       room_name = Some ''Django help'', room_description = None\<rparr>]\<rparr>)
   \<and> updateRoom demo_schema demo_db
        (demo_request (AuthUser 1) ''POST'' []
           [(''topic'', ''Rust''), (''name'', ''Borrowing''), (''description'', ''Help'')]) 1
       = (Inr (Redirect ''home'' None),
          demo_db\<lparr>topics := topics demo_db @ [\<lparr>topic_id = 3, topic_name = Some ''Rust''\<rparr>],
                  rooms := [\<lparr>room_id = 1, room_host = 1, room_topic = 3,
                       room_name = Some ''Borrowing'', room_description = Some ''Help''\<rparr>,
                     \<lparr>room_id = 2, room_host = 2, room_topic = 2,
                       room_name = Some ''Django help'', room_description = None\<rparr>]\<rparr>)
   \<and> topics (snd (createRoom demo_schema demo_db
        (demo_request (AuthUser 1) ''POST'' []
           [(''topic'', ''Rust''), (''name'', ''Borrowing''), (''description'', ''Help'')])))
       = topics demo_db @ [\<lparr>topic_id = 3, topic_name = Some ''Rust''\<rparr>]"
proof -
  let ?q1 = "demo_request (AuthUser 1) ''POST'' []
           [(''topic'', ''Games''), (''name'', ''Go Club''), (''description'', ''Weekly'')]"
  let ?q2 = "demo_request (AuthUser 1) ''POST'' []
           [(''topic'', ''Rust''), (''name'', ''Borrowing''), (''description'', ''Help'')]"
  let ?q3 = "demo_request (AuthUser 1) ''POST'' []
           [(''topic'', ''Python''), (''name'', ''Chess Masters''), (''description'', ''Daily'')]"
  let ?r = "\<lparr>room_id = 1, room_host = 1, room_topic = 1, room_name = Some ''Chess Club'',
     room_description = Some ''Weekly games''\<rparr>"
  let ?games = "\<lparr>topic_id = 1, topic_name = Some ''Games''\<rparr>"
  let ?python = "\<lparr>topic_id = 2, topic_name = Some ''Python''\<rparr>"
  have h1: "topic_names_distinct demo_db"
    by (simp add: topic_names_distinct_def demo_db_def)
  have h2: "req_user ?q1 = AuthUser 1" "req_user ?q2 = AuthUser 1" "req_user ?q3 = AuthUser 1"
    and h3: "req_method ?q1 = ''POST''" "req_method ?q2 = ''POST''" "req_method ?q3 = ''POST''"
    by (simp_all add: demo_request_def)
  have g: "get (\<lambda>x. room_id x = 1) (rooms demo_db) = Inr ?r \<and> room_host ?r = 1"
    by (simp add: get_def demo_db_def)
  have f: "fresh (map topic_id (topics demo_db)) = 3"
    and fr: "fresh (map room_id (rooms demo_db)) = 3"
    by (simp_all add: fresh_def demo_db_def)

  have t1: "?games \<in> set (topics demo_db)" "topic_name ?games = POST ?q1 ''topic''"
    by (simp_all add: demo_db_def demo_request_def)
  have v1: "room_valid demo_schema \<lparr>room_id = fresh (map room_id (rooms demo_db)),
      room_host = 1, room_topic = topic_id ?games, room_name = POST ?q1 ''name'',
      room_description = POST ?q1 ''description''\<rparr>"
    by (simp add: demo_schema_def demo_request_def)
  note c1 = topic_reused_or_created_once [OF h1 h2(1) h3(1), of demo_schema,
      THEN conjunct1, THEN bspec, OF t1(1), THEN mp, OF t1(2)]
  from c1 v1 have "createRoom demo_schema demo_db ?q1 =
      (Inr (Redirect ''home'' None),
       demo_db\<lparr>rooms := rooms demo_db
         @ [\<lparr>room_id = fresh (map room_id (rooms demo_db)), room_host = 1,
              room_topic = topic_id ?games, room_name = POST ?q1 ''name'',
              room_description = POST ?q1 ''description''\<rparr>]\<rparr>)"
    by blast
  moreover have "\<lparr>room_id = fresh (map room_id (rooms demo_db)), room_host = 1,
         room_topic = topic_id ?games, room_name = POST ?q1 ''name'',
         room_description = POST ?q1 ''description''\<rparr>
      = \<lparr>room_id = 3, room_host = 1, room_topic = 1,
           room_name = Some ''Go Club'', room_description = Some ''Weekly''\<rparr>"
    by (simp add: fr demo_request_def)
  ultimately have a: "createRoom demo_schema demo_db ?q1 =
      (Inr (Redirect ''home'' None),
       demo_db\<lparr>rooms := rooms demo_db
                  @ [\<lparr>room_id = 3, room_host = 1, room_topic = 1,
                       room_name = Some ''Go Club'', room_description = Some ''Weekly''\<rparr>]\<rparr>)"
    by (simp only:)

  have t3: "?python \<in> set (topics demo_db)" "topic_name ?python = POST ?q3 ''topic''"
    by (simp_all add: demo_db_def demo_request_def)
  have v3: "room_valid demo_schema (?r\<lparr>room_name := POST ?q3 ''name'',
      room_topic := topic_id ?python, room_description := POST ?q3 ''description''\<rparr>)"
    by (simp add: demo_schema_def demo_request_def)
  note c3 = topic_reused_or_created_once [OF h1 h2(3) h3(3), of demo_schema,
      THEN conjunct1, THEN bspec, OF t3(1), THEN mp, OF t3(2)]
  from c3 g v3 have "updateRoom demo_schema demo_db ?q3 1 =
      (Inr (Redirect ''home'' None),
       demo_db\<lparr>rooms := map (\<lambda>x. if room_id x = 1
           then ?r\<lparr>room_name := POST ?q3 ''name'', room_topic := topic_id ?python,
                   room_description := POST ?q3 ''description''\<rparr>
           else x) (rooms demo_db)\<rparr>)"
    by blast
  moreover have "map (\<lambda>x. if room_id x = 1
           then ?r\<lparr>room_name := POST ?q3 ''name'', room_topic := topic_id ?python,
                   room_description := POST ?q3 ''description''\<rparr>
           else x) (rooms demo_db)
      = [\<lparr>room_id = 1, room_host = 1, room_topic = 2,
           room_name = Some ''Chess Masters'', room_description = Some ''Daily''\<rparr>,
         \<lparr>room_id = 2, room_host = 2, room_topic = 2,
           room_name = Some ''Django help'', room_description = None\<rparr>]"
    by (simp add: demo_db_def demo_request_def)
  ultimately have b: "updateRoom demo_schema demo_db ?q3 1 =
      (Inr (Redirect ''home'' None),
       demo_db\<lparr>rooms := [\<lparr>room_id = 1, room_host = 1, room_topic = 2,
                    room_name = Some ''Chess Masters'', room_description = Some ''Daily''\<rparr>,
                  \<lparr>room_id = 2, room_host = 2, room_topic = 2,
                    room_name = Some ''Django help'', room_description = None\<rparr>]\<rparr>)"
    by (simp only:)

  have p: "POST ?q2 ''topic'' = Some ''Rust''"
    by (simp add: demo_request_def)
  have m: "POST ?q2 ''topic'' \<notin> topic_name ` set (topics demo_db)"
    by (simp add: demo_db_def demo_request_def)
  have v: "topic_valid demo_schema \<lparr>topic_id = fresh (map topic_id (topics demo_db)),
      topic_name = POST ?q2 ''topic''\<rparr>"
    by (simp add: demo_schema_def demo_request_def)
  have v2: "room_valid demo_schema (?r\<lparr>room_name := POST ?q2 ''name'',
      room_topic := fresh (map topic_id (topics demo_db)),
      room_description := POST ?q2 ''description''\<rparr>)"
    by (simp add: demo_schema_def demo_request_def)
  note c2 = topic_reused_or_created_once [OF h1 h2(2) h3(2), of demo_schema,
      THEN conjunct2, THEN conjunct1, THEN mp, OF conjI, OF m v]
  from c2 have d: "topics (snd (createRoom demo_schema demo_db ?q2))
      = topics demo_db @ [\<lparr>topic_id = fresh (map topic_id (topics demo_db)),
                            topic_name = POST ?q2 ''topic''\<rparr>]"
    by blast
  from c2 g v2 have "updateRoom demo_schema demo_db ?q2 1 =
      (Inr (Redirect ''home'' None),
       demo_db\<lparr>topics := topics demo_db
              @ [\<lparr>topic_id = fresh (map topic_id (topics demo_db)),
                   topic_name = POST ?q2 ''topic''\<rparr>],
         rooms := map (\<lambda>x. if room_id x = 1
           then ?r\<lparr>room_name := POST ?q2 ''name'',
                   room_topic := fresh (map topic_id (topics demo_db)),
                   room_description := POST ?q2 ''description''\<rparr>
           else x) (rooms demo_db)\<rparr>)"
    by blast
  moreover have "map (\<lambda>x. if room_id x = 1
           then ?r\<lparr>room_name := POST ?q2 ''name'',
                   room_topic := fresh (map topic_id (topics demo_db)),
                   room_description := POST ?q2 ''description''\<rparr>
           else x) (rooms demo_db)
      = [\<lparr>room_id = 1, room_host = 1, room_topic = 3,
           room_name = Some ''Borrowing'', room_description = Some ''Help''\<rparr>,
         \<lparr>room_id = 2, room_host = 2, room_topic = 2,
           room_name = Some ''Django help'', room_description = None\<rparr>]"
    by (simp add: demo_db_def demo_request_def fresh_def)
  ultimately have c: "updateRoom demo_schema demo_db ?q2 1 =
      (Inr (Redirect ''home'' None),
       demo_db\<lparr>topics := topics demo_db @ [\<lparr>topic_id = 3, topic_name = Some ''Rust''\<rparr>],
               rooms := [\<lparr>room_id = 1, room_host = 1, room_topic = 3,
                    room_name = Some ''Borrowing'', room_description = Some ''Help''\<rparr>,
                  \<lparr>room_id = 2, room_host = 2, room_topic = 2,
                    room_name = Some ''Django help'', room_description = None\<rparr>]\<rparr>)"
    by (simp only: f p)
  from d have d': "topics (snd (createRoom demo_schema demo_db ?q2))
      = topics demo_db @ [\<lparr>topic_id = 3, topic_name = Some ''Rust''\<rparr>]"
    by (simp only: f p)
  from h1 a b c d' show ?thesis
    by (simp only: simp_thms)
qed

section \<open>The handlers keep the invariants\<close>

text \<open>
  The hypotheses on the store in the theorems above hold of every store that the
  handlers produce: each write operation, and so each handler, keeps \<open>store_ok\<close>.
\<close>

lemma fold_max_ge: "a \<le> fold max ids (a::nat) \<and> (\<forall>x \<in> set ids. x \<le> fold max ids a)"
proof (induction ids arbitrary: a)
  case Nil
  show ?case by simp
next
  case (Cons i ids)
  from Cons.IH [of "max i a"] show ?case by auto
qed

lemma fresh_notin: "fresh ids \<notin> set ids"
proof
  assume "fresh ids \<in> set ids"
  with fold_max_ge [of 0 ids] have "fresh ids \<le> fold max ids 0" by blast
  then show False by (simp add: fresh_def)
qed

lemma Topic_get_or_create_ok:
  assumes "Topic_get_or_create sch d name = Inr (t, created, d1)" and "store_ok sch d"
  shows "store_ok sch d1"
proof (cases "get (\<lambda>t. topic_name t = name) (topics d)")
  case (Inr x)
  with assms show ?thesis by (auto simp: Topic_get_or_create_def)
next
  case (Inl e)
  let ?new = "\<lparr>topic_id = fresh (map topic_id (topics d)), topic_name = name\<rparr>"
  from assms(1) Inl have e: "e = DoesNotExist" and d1: "d1 = d\<lparr>topics := topics d @ [?new]\<rparr>"
    and v: "topic_valid sch ?new"
    by (auto simp: Topic_get_or_create_def Let_def split: if_splits)
  from Inl e have "\<forall>x \<in> set (topics d). topic_name x \<noteq> name"
    using get_DoesNotExist [of "\<lambda>t. topic_name t = name" "topics d"] by simp
  then have n: "name \<notin> set (map topic_name (topics d))" by auto
  have f: "fresh (map topic_id (topics d)) \<notin> set (map topic_id (topics d))"
    by (rule fresh_notin)
  from assms(2) n f v show ?thesis
    unfolding d1 store_ok_def keys_unique_def rooms_have_topic_def messages_have_room_def
      topic_names_distinct_def
    by (auto simp: list_all_iff list_ex_iff)
qed

lemma Room_create_ok:
  assumes "Room_create sch d host topic name description = Inr d1" and "store_ok sch d"
    and "topic \<in> topic_id ` set (topics d)"
  shows "store_ok sch d1"
proof -
  let ?r = "\<lparr>room_id = fresh (map room_id (rooms d)), room_host = host,
             room_topic = topic, room_name = name, room_description = description\<rparr>"
  from assms(1) have d1: "d1 = d\<lparr>rooms := rooms d @ [?r]\<rparr>"
    by (auto simp: Room_create_def Let_def split: if_splits)
  have f: "fresh (map room_id (rooms d)) \<notin> set (map room_id (rooms d))"
    by (rule fresh_notin)
  from assms(2,3) f show ?thesis
    unfolding d1 store_ok_def keys_unique_def rooms_have_topic_def messages_have_room_def
      topic_names_distinct_def
    by (auto simp: list_all_iff list_ex_iff)
qed

lemma Room_save_ok:
  assumes "Room_save sch d r = Inr d1" and "store_ok sch d"
    and "room_topic r \<in> topic_id ` set (topics d)"
  shows "store_ok sch d1"
proof -
  let ?f = "\<lambda>x. if room_id x = room_id r then r else x"
  from assms(1) have d1: "d1 = d\<lparr>rooms := map ?f (rooms d)\<rparr>"
    by (auto simp: Room_save_def split: if_splits)
  have ids: "map room_id (map ?f (rooms d)) = map room_id (rooms d)"
    by (induction "rooms d") auto
  from assms(2) have "distinct (map room_id (rooms d))"
    by (simp add: store_ok_def keys_unique_def)
  then have "distinct (map room_id (map ?f (rooms d)))"
    by (simp only: ids)
  with assms(2) have k: "keys_unique d1"
    unfolding d1 store_ok_def keys_unique_def by simp
  have t: "rooms_have_topic d1"
    unfolding d1 rooms_have_topic_def list_all_iff list_ex_iff
  proof
    fix x assume "x \<in> set (rooms (d\<lparr>rooms := map ?f (rooms d)\<rparr>))"
    then have "x = r \<or> x \<in> set (rooms d)" by auto
    with assms(2,3) show "\<exists>t \<in> set (topics (d\<lparr>rooms := map ?f (rooms d)\<rparr>)).
        topic_id t = room_topic x"
      by (auto simp: store_ok_def rooms_have_topic_def list_all_iff list_ex_iff)
  qed
  have m: "messages_have_room d1"
    unfolding d1 messages_have_room_def list_all_iff list_ex_iff
  proof
    fix m assume "m \<in> set (messages (d\<lparr>rooms := map ?f (rooms d)\<rparr>))"
    then have "m \<in> set (messages d)" by simp
    with assms(2) have "\<exists>x \<in> set (rooms d). room_id x = message_room m"
      by (simp add: store_ok_def messages_have_room_def list_all_iff list_ex_iff)
    then obtain x0 where x0: "x0 \<in> set (rooms d)" "room_id x0 = message_room m"
      by blast
    have sel: "rooms (d\<lparr>rooms := map ?f (rooms d)\<rparr>) = map ?f (rooms d)"
      by simp
    show "\<exists>x \<in> set (rooms (d\<lparr>rooms := map ?f (rooms d)\<rparr>)).
        room_id x = message_room m"
      unfolding sel
    proof (rule bexI)
      show "room_id (?f x0) = message_room m" using x0(2) by simp
      from x0(1) have "?f x0 \<in> ?f ` set (rooms d)" by (rule imageI)
      then show "?f x0 \<in> set (map ?f (rooms d))" by (simp only: set_map)
    qed
  qed
  from assms(2) have n: "topic_names_distinct d1"
    unfolding d1 store_ok_def topic_names_distinct_def by simp
  from assms(2) have v: "list_all (topic_valid sch) (topics d1)"
    unfolding d1 store_ok_def by simp
  from k t m n v show ?thesis by (simp add: store_ok_def)
qed

lemma Room_delete_ok:
  assumes "store_ok sch d"
  shows "store_ok sch (Room_delete d r)"
proof -
  from assms have "keys_unique (Room_delete d r)"
    by (simp add: store_ok_def keys_unique_def Room_delete_def distinct_map_filter)
  moreover from assms have "rooms_have_topic (Room_delete d r)"
    by (auto simp: store_ok_def rooms_have_topic_def Room_delete_def list_all_iff list_ex_iff)
  moreover from assms have "messages_have_room (Room_delete d r)"
    by (fastforce simp: store_ok_def messages_have_room_def Room_delete_def list_all_iff
        list_ex_iff)
  moreover from assms have "topic_names_distinct (Room_delete d r)"
    by (simp add: store_ok_def topic_names_distinct_def Room_delete_def)
  moreover from assms have "list_all (topic_valid sch) (topics (Room_delete d r))"
    by (simp add: store_ok_def Room_delete_def)
  ultimately show ?thesis by (simp add: store_ok_def)
qed

lemma Message_create_ok:
  assumes "Message_create sch d uid rid body = Inr d1" and "store_ok sch d"
    and "rid \<in> room_id ` set (rooms d)"
  shows "store_ok sch d1"
proof -
  let ?m = "\<lparr>message_id = fresh (map message_id (messages d)), message_user = uid,
             message_room = rid, message_body = body\<rparr>"
  from assms(1) have d1: "d1 = d\<lparr>messages := messages d @ [?m]\<rparr>"
    by (auto simp: Message_create_def Let_def split: if_splits)
  have f: "fresh (map message_id (messages d)) \<notin> set (map message_id (messages d))"
    by (rule fresh_notin)
  from assms(2,3) f show ?thesis
    unfolding d1 store_ok_def keys_unique_def rooms_have_topic_def messages_have_room_def
      topic_names_distinct_def
    by (auto simp: list_all_iff list_ex_iff)
qed

lemma Message_delete_ok:
  assumes "store_ok sch d"
  shows "store_ok sch (Message_delete d m)"
  using assms
  by (auto simp: store_ok_def keys_unique_def rooms_have_topic_def messages_have_room_def
      topic_names_distinct_def Message_delete_def distinct_map_filter list_all_iff list_ex_iff)

lemma participants_add_ok:
  assumes "store_ok sch d"
  shows "store_ok sch (participants_add d rid uid)"
  using assms
  by (auto simp: store_ok_def keys_unique_def rooms_have_topic_def messages_have_room_def
      topic_names_distinct_def participants_add_def)

lemma User_save_ok:
  assumes "User_save sch d u = Inr (u', d1)" and "store_ok sch d"
  shows "store_ok sch d1"
proof -
  from assms(1) have d1: "d1 = d\<lparr>users := users d
      @ [u\<lparr>user_id := fresh (map user_id (users d))\<rparr>]\<rparr>"
    by (auto simp: User_save_def Let_def split: if_splits)
  have f: "fresh (map user_id (users d)) \<notin> set (map user_id (users d))"
    by (rule fresh_notin)
  from assms(2) f show ?thesis
    unfolding d1 store_ok_def keys_unique_def rooms_have_topic_def messages_have_room_def
      topic_names_distinct_def
    by (auto simp: list_all_iff list_ex_iff)
qed

lemma createRoom_ok:
  assumes "store_ok sch d"
  shows "store_ok sch (snd (createRoom sch d request))"
proof (cases "req_user request")
  case AnonymousUser
  with assms show ?thesis by (simp add: createRoom_def)
next
  case (AuthUser u)
  show ?thesis
  proof (cases "req_method request = ''POST''")
    case False
    with assms AuthUser show ?thesis by (simp add: createRoom_def)
  next
    case True
    show ?thesis
    proof (cases "Topic_get_or_create sch d (POST request ''topic'')")
      case (Inl e)
      with assms AuthUser True show ?thesis by (simp add: createRoom_def)
    next
      case (Inr res)
      obtain t created d1 where res: "res = (t, created, d1)" by (cases res) auto
      from Inr res have g: "Topic_get_or_create sch d (POST request ''topic'') = Inr (t, created, d1)"
        by simp
      from Topic_get_or_create_ok [OF g assms] have ok1: "store_ok sch d1" .
      from Topic_get_or_create_frame [OF g] have t: "topic_id t \<in> topic_id ` set (topics d1)"
        by simp
      show ?thesis
      proof (cases "Room_create sch d1 u (topic_id t) (POST request ''name'')
          (POST request ''description'')")
        case (Inl e)
        with AuthUser True g ok1 show ?thesis by (simp add: createRoom_def)
      next
        case r: (Inr d2)
        from Room_create_ok [OF r ok1 t] AuthUser True g r show ?thesis
          by (simp add: createRoom_def)
      qed
    qed
  qed
qed

lemma updateRoom_ok:
  assumes "store_ok sch d"
  shows "store_ok sch (snd (updateRoom sch d request pk))"
proof (cases "\<exists>d'. updateRoom sch d request pk = (Inr (Redirect ''home'' None), d')")
  case True
  then obtain d' where r: "updateRoom sch d request pk = (Inr (Redirect ''home'' None), d')"
    by blast
  from updateRoom_success [OF r] obtain room' t created d1 where
    g: "Topic_get_or_create sch d (POST request ''topic'') = Inr (t, created, d1)" and
    d': "d' = d1\<lparr>rooms := map (\<lambda>x. if room_id x = pk
                 then room'\<lparr>room_name := POST request ''name'', room_topic := topic_id t,
                            room_description := POST request ''description''\<rparr>
                 else x) (rooms d1)\<rparr>" and
    l: "get (\<lambda>r. room_id r = pk) (rooms d) = Inr room'"
    by blast
  let ?room3 = "room'\<lparr>room_name := POST request ''name'', room_topic := topic_id t,
                      room_description := POST request ''description''\<rparr>"
  from get_Inr [OF l] have pk: "room_id ?room3 = pk" by simp
  from Topic_get_or_create_ok [OF g assms] have ok1: "store_ok sch d1" .
  from Topic_get_or_create_frame [OF g] have t: "room_topic ?room3 \<in> topic_id ` set (topics d1)"
    by simp
  have "Room_save (sch\<lparr>room_valid := \<lambda>r. True\<rparr>) d1 ?room3 = Inr d'"
    unfolding d' by (simp add: Room_save_def pk)
  moreover from ok1 have "store_ok (sch\<lparr>room_valid := \<lambda>r. True\<rparr>) d1"
    by (simp add: store_ok_def)
  ultimately have "store_ok (sch\<lparr>room_valid := \<lambda>r. True\<rparr>) d'"
    using t by (rule Room_save_ok)
  then have "store_ok sch d'" by (simp add: store_ok_def)
  with r show ?thesis by simp
next
  case False
  show ?thesis
  proof (cases "req_user request")
    case AnonymousUser
    with assms show ?thesis by (simp add: updateRoom_def)
  next
    case (AuthUser u)
    show ?thesis
    proof (cases "get (\<lambda>r. room_id r = pk) (rooms d)")
      case (Inl e)
      with assms AuthUser show ?thesis by (simp add: updateRoom_def)
    next
      case (Inr room')
      show ?thesis
      proof (cases "u \<noteq> room_host room' \<or> req_method request \<noteq> ''POST''")
        case True
        with assms AuthUser Inr show ?thesis by (auto simp: updateRoom_def)
      next
        case host: False
        show ?thesis
        proof (cases "Topic_get_or_create sch d (POST request ''topic'')")
          case (Inl e)
          with assms AuthUser Inr host show ?thesis by (simp add: updateRoom_def)
        next
          case g: (Inr res)
          obtain t created d1 where res: "res = (t, created, d1)" by (cases res) auto
          from g res Topic_get_or_create_ok [of sch d "POST request ''topic''" t created d1] assms
          have ok1: "store_ok sch d1" by simp
          from False AuthUser Inr host g res
          have "snd (updateRoom sch d request pk) = d1"
            by (auto simp: updateRoom_def Let_def split: sum.splits)
          with ok1 show ?thesis by simp
        qed
      qed
    qed
  qed
qed

lemma deleteRoom_ok:
  assumes "store_ok sch d"
  shows "store_ok sch (snd (deleteRoom d request pk))"
  using assms Room_delete_ok [OF assms]
  by (auto simp: deleteRoom_def split: identity.splits sum.splits)

lemma deleteMessage_ok:
  assumes "store_ok sch d"
  shows "store_ok sch (snd (deleteMessage d request pk))"
  using assms Message_delete_ok [OF assms]
  by (auto simp: deleteMessage_def split: identity.splits sum.splits)

lemma room_ok:
  assumes "store_ok sch d"
  shows "store_ok sch (snd (room sch d request pk))"
proof (cases "get (\<lambda>r. room_id r = pk) (rooms d)")
  case (Inl e)
  with assms show ?thesis by (simp add: room_def)
next
  case (Inr our_room)
  from get_Inr [OF Inr] have in_rooms: "room_id our_room \<in> room_id ` set (rooms d)"
    by blast
  show ?thesis
  proof (cases "req_method request = ''POST''")
    case False
    with assms Inr show ?thesis by (simp add: room_def)
  next
    case True
    show ?thesis
    proof (cases "req_user request")
      case AnonymousUser
      with assms Inr True show ?thesis by (simp add: room_def)
    next
      case (AuthUser u)
      show ?thesis
      proof (cases "Message_create sch d u (room_id our_room) (POST request ''body'')")
        case (Inl e)
        with assms Inr True AuthUser show ?thesis by (simp add: room_def)
      next
        case m: (Inr d1)
        from Message_create_ok [OF m assms in_rooms] have "store_ok sch d1" .
        then have "store_ok sch (participants_add d1 (room_id our_room) u)"
          by (rule participants_add_ok)
        with Inr True AuthUser m show ?thesis by (simp add: room_def)
      qed
    qed
  qed
qed

lemma registerPage_ok:
  assumes "store_ok sch d"
  shows "store_ok sch (fst (snd (registerPage str_lower form sch d s request)))"
proof (cases "req_method request = ''POST''")
  case False
  with assms show ?thesis by (simp add: registerPage_def)
next
  case True
  show ?thesis
  proof (cases "form (POST request) d")
    case None
    with assms True show ?thesis by (simp add: registerPage_def)
  next
    case (Some user)
    let ?u = "user\<lparr>user_username := str_lower (user_username user)\<rparr>"
    show ?thesis
    proof (cases "User_save sch d ?u")
      case (Inl e)
      with assms True Some show ?thesis by (simp add: registerPage_def)
    next
      case (Inr res)
      obtain u' d1 where res: "res = (u', d1)" by (cases res) auto
      from Inr res User_save_ok [of sch d ?u u' d1] assms have "store_ok sch d1" by simp
      with True Some Inr res show ?thesis by (simp add: registerPage_def)
    qed
  qed
qed

lemma reachable_store_ok: "reachable sch str_lower form d \<Longrightarrow> store_ok sch d"
proof (induction rule: reachable.induct)
  case start
  show ?case
    by (simp add: store_ok_def empty_db_def keys_unique_def rooms_have_topic_def
        messages_have_room_def topic_names_distinct_def)
next
  case (after_createRoom d request)
  then show ?case by (simp add: createRoom_ok)
next
  case (after_updateRoom d request pk)
  then show ?case by (simp add: updateRoom_ok)
next
  case (after_deleteRoom d request pk)
  then show ?case by (simp add: deleteRoom_ok)
next
  case (after_deleteMessage d request pk)
  then show ?case by (simp add: deleteMessage_ok)
next
  case (after_room d request pk)
  then show ?case by (simp add: room_ok)
next
  case (after_registerPage d s request)
  then show ?case by (simp add: registerPage_ok)
qed

lemma reachable_invariants:
  assumes "reachable sch str_lower form d"
    and "\<forall>t. topic_valid sch t \<longrightarrow> topic_name t \<noteq> None"
  shows "keys_unique d \<and> rooms_have_topic d \<and> messages_have_room d
     \<and> topic_names_distinct d \<and> topics_named d"
proof -
  from reachable_store_ok [OF assms(1)] have ok: "store_ok sch d" .
  then have "list_all (topic_valid sch) (topics d)" by (simp add: store_ok_def)
  with assms(2) have "topics_named d"
    by (simp add: topics_named_def list_all_iff)
  with ok show ?thesis by (simp add: store_ok_def)
qed

end
